theory Spec2Isabelle
  imports Complex_Main "HOL-Library.Word" "HOL-Library.Sublist" "HOL-Library.Multiset"
begin

unbundle bit_operations_syntax

section \<open>Data model\<close>

text \<open>
  Python's \<^verbatim>\<open>str\<close> is modelled by \<^typ>\<open>string\<close>, one \<^typ>\<open>char\<close> per code point, for the
  code points below 256. On that range \<^verbatim>\<open>str.isspace\<close>, the \<^verbatim>\<open>\s\<close> class of \<^verbatim>\<open>re\<close>
  and \<^verbatim>\<open>str.lower\<close> are the finite tables written out below.
\<close>

datatype exn =
  ESGServiceError | JSONDecodeError | AttributeError | TypeError | OverflowError | KeyError
| RecursionError | ValueError

text \<open>
  A Python \<^verbatim>\<open>float\<close>, an IEEE 754 binary64 number: a finite value (kept as the exact
  rational that the double denotes), one of the two infinities, or NaN.
\<close>

datatype pyfloat = Finite rat | PosInf | NegInf | NaN

text \<open>What \<^verbatim>\<open>json.loads\<close> returns. An object is its list of key/value pairs, keys distinct.\<close>

datatype json =
  JNull
| JBool bool
| JInt int
| JFloat pyfloat
| JStr string
| JArr "json list"
| JObj "(string \<times> json) list"

text \<open>
  A \<^verbatim>\<open>datetime\<close>: \<open>wall\<close> is the value of its calendar and clock fields, counted in
  microseconds from \<^verbatim>\<open>datetime.min\<close>; \<open>tzinfo\<close> is \<open>None\<close> for a naive value and the UTC offset
  (in microseconds) for an aware one.
\<close>

record datetime =
  wall :: int
  tzinfo :: "int option"

text \<open>The article dictionary built by \<^verbatim>\<open>fetch_articles\<close> (\<^verbatim>\<open>None\<close> is \<open>None\<close>).\<close>

record article =
  title :: "string option"
  description :: "string option"
  url :: "string option"
  source :: "string option"
  published_at :: "datetime option"
  source_type :: string

text \<open>
  The \<^verbatim>\<open>scores\<close> dictionary of an analysed item. Its values are finite numbers; the
  model keeps the exact value of each and identifies the \<^verbatim>\<open>int\<close> 70 with the
  \<^verbatim>\<open>float\<close> 70.0.
\<close>

record score_set =
  environment :: rat
  social :: rat
  governance :: rat
  overall :: rat

record item =
  item_title :: json
  item_description :: json
  date :: json
  display_date :: json
  item_source :: json
  item_url :: json
  scores :: score_set

record analysis =
  items :: "item list"
  overall_score :: json

text \<open>A row of the \<^verbatim>\<open>SearchHistory\<close> table (\<^verbatim>\<open>dashboard/models.py\<close>).\<close>

record search_history =
  row_user_id :: int
  row_company_name :: string
  row_searched_at :: int

text \<open>
  Library functions the repository calls and does not define.
  \<^item> \<open>parser_parse\<close> is \<^verbatim>\<open>parser.parse\<close> (or \<^verbatim>\<open>datetime.fromisoformat\<close>); \<open>None\<close> stands
    for any exception, all of which the source catches at that call.
  \<^item> \<open>json_loads\<close> is \<^verbatim>\<open>json.loads\<close>. It returns the value or raises: \<^verbatim>\<open>JSONDecodeError\<close> on
    text that is no JSON, and also \<^verbatim>\<open>RecursionError\<close> on text nested too deeply and a
    plain \<^verbatim>\<open>ValueError\<close> on an integer literal with too many digits. The source catches
    the first only, so the exception is part of the result.
  \<^item> \<open>float_of_str\<close> is \<^verbatim>\<open>float\<close> of a string; \<open>None\<close> stands for its \<^verbatim>\<open>ValueError\<close>.
  \<^item> \<open>float_sum\<close> is the builtin \<^verbatim>\<open>sum\<close> on a list of floats, whose rounding depends on
    the interpreter (CPython adds from left to right, from 3.12 on with a compensation
    term).
\<close>

record libs =
  parser_parse :: "string \<Rightarrow> datetime option"
  dt_isoformat :: "datetime \<Rightarrow> string"
  strftime_display :: "datetime \<Rightarrow> string"
  json_loads :: "string \<Rightarrow> exn + json"
  findall_fenced :: "string \<Rightarrow> string list"
  float_of_str :: "string \<Rightarrow> pyfloat option"
  float_sum :: "rat list \<Rightarrow> rat"

text \<open>What \<^verbatim>\<open>client.responses.create\<close> does for one request.\<close>

datatype response = TransportFailure | NoOutputText | OutputText string

text \<open>
  The surroundings of one call: \<open>openai_available\<close> is
  \<^verbatim>\<open>bool(OpenAI and settings.OPENAI_API_KEY)\<close>; \<open>search_response\<close> and \<open>scoring_response\<close> are the
  oracle's behaviour on the web-search request and on the scoring request;
  \<open>utcnow i\<close> is the reading of \<^verbatim>\<open>datetime.utcnow()\<close> while raw item \<open>i\<close> is converted.
\<close>

record env =
  openai_available :: bool
  search_response :: response
  scoring_response :: response
  utcnow :: "nat \<Rightarrow> int"

section \<open>Strings\<close>

definition isspace :: "char \<Rightarrow> bool" where
  "isspace c = (of_char c \<in> {9, 10, 11, 12, 13, 28, 29, 30, 31, 32, 133, 160 :: nat})"

definition lower_char :: "char \<Rightarrow> char" where
  "lower_char c =
     (let n = of_char c :: nat
      in if (65 \<le> n \<and> n \<le> 90) \<or> (192 \<le> n \<and> n \<le> 222 \<and> n \<noteq> 215)
         then char_of (n + 32) else c)"

definition lower :: "string \<Rightarrow> string" where
  "lower s = map lower_char s"

definition strip :: "string \<Rightarrow> string" where
  "strip s = rev (dropWhile isspace (rev (dropWhile isspace s)))"

text \<open>\<^verbatim>\<open>re.sub(r"\s+", " ", s)\<close>: every maximal run of whitespace becomes one space.\<close>

function sub_spaces :: "string \<Rightarrow> string" where
  "sub_spaces [] = []"
| "sub_spaces (c # cs) =
     (if isspace c then CHR '' '' # sub_spaces (dropWhile isspace cs)
      else c # sub_spaces cs)"
  by pat_completeness auto
termination
  by (relation "measure length") (auto simp: length_dropWhile_le less_Suc_eq_le)

text \<open>\<^verbatim>\<open>needle in s\<close> on strings.\<close>

fun contains :: "string \<Rightarrow> string \<Rightarrow> bool" where
  "contains needle [] = (needle = [])"
| "contains needle (c # cs) = (prefix needle (c # cs) \<or> contains needle cs)"

text \<open>\<^verbatim>\<open>' '.join(parts)\<close>.\<close>

fun join_space :: "string list \<Rightarrow> string" where
  "join_space [] = []"
| "join_space [p] = p"
| "join_space (p # q # ps) = p @ CHR '' '' # join_space (q # ps)"

text \<open>\<^verbatim>\<open>s.find(c)\<close> and \<^verbatim>\<open>s.rfind(c)\<close> for one character; \<open>None\<close> is the result \<open>-1\<close>.\<close>

fun str_find :: "char \<Rightarrow> string \<Rightarrow> nat option" where
  "str_find c [] = None"
| "str_find c (x # xs) = (if x = c then Some 0 else map_option Suc (str_find c xs))"

definition str_rfind :: "char \<Rightarrow> string \<Rightarrow> nat option" where
  "str_rfind c s = map_option (\<lambda>i. length s - 1 - i) (str_find c (rev s))"

text \<open>The words of a string: its maximal runs of non-whitespace characters.\<close>

function split_ws :: "string \<Rightarrow> string list" where
  "split_ws [] = []"
| "split_ws (c # cs) =
     (if isspace c then split_ws cs
      else takeWhile (\<lambda>x. \<not> isspace x) (c # cs) # split_ws (dropWhile (\<lambda>x. \<not> isspace x) cs))"
  by pat_completeness auto
termination
  by (relation "measure length") (auto simp: length_dropWhile_le less_Suc_eq_le)

text \<open>Two predicates on strings, used to describe normalized names.\<close>

fun single_spaced :: "string \<Rightarrow> bool" where
  "single_spaced [] = True"
| "single_spaced (c # cs) =
     ((isspace c \<longrightarrow> c = CHR '' '' \<and> (cs = [] \<or> \<not> isspace (hd cs))) \<and> single_spaced cs)"

definition trimmed :: "string \<Rightarrow> bool" where
  "trimmed s = (s = [] \<or> (\<not> isspace (hd s) \<and> \<not> isspace (last s)))"

section \<open>\<^verbatim>\<open>esg/utils.py\<close>\<close>

definition normalize_company_name :: "string \<Rightarrow> string" where
  "normalize_company_name name = sub_spaces (strip name)"

subsection \<open>SHA-1 (\<^verbatim>\<open>hashlib.sha1\<close>) and UTF-8\<close>

type_synonym byte = "8 word"
type_synonym word32 = "32 word"
type_synonym sha1_state = "word32 \<times> word32 \<times> word32 \<times> word32 \<times> word32"

definition encode_utf8 :: "string \<Rightarrow> byte list" where
  "encode_utf8 s =
     concat (map (\<lambda>c. let n = of_char c :: nat
                       in if n < 128 then [of_nat n]
                          else [of_nat (192 + n div 64), of_nat (128 + n mod 64)]) s)"

definition sha1_pad :: "byte list \<Rightarrow> byte list" where
  "sha1_pad m =
     (let l = length m;
          k = (119 - l mod 64) mod 64
      in m @ [128] @ replicate k 0
           @ map (\<lambda>i. ucast (drop_bit (8 * (7 - i)) (of_nat (8 * l) :: 64 word))) [0..<8])"

fun be_words :: "byte list \<Rightarrow> word32 list" where
  "be_words (a # b # c # d # bs) =
     (push_bit 24 (ucast a) OR push_bit 16 (ucast b) OR push_bit 8 (ucast c) OR ucast d)
       # be_words bs"
| "be_words _ = []"

fun sha1_expand :: "nat \<Rightarrow> word32 list \<Rightarrow> word32 list" where
  "sha1_expand 0 w = w"
| "sha1_expand (Suc n) w =
     (let t = length w
      in sha1_expand n
           (w @ [word_rotl 1 (w ! (t - 3) XOR w ! (t - 8) XOR w ! (t - 14) XOR w ! (t - 16))]))"

definition sha1_round :: "word32 list \<Rightarrow> sha1_state \<Rightarrow> nat \<Rightarrow> sha1_state" where
  "sha1_round w st t =
     (case st of (a, b, c, d, e) \<Rightarrow>
        let f = (if t < 20 then (b AND c) OR (NOT b AND d)
                 else if t < 40 then b XOR c XOR d
                 else if t < 60 then (b AND c) OR (b AND d) OR (c AND d)
                 else b XOR c XOR d);
            k = (if t < 20 then 0x5A827999
                 else if t < 40 then 0x6ED9EBA1
                 else if t < 60 then 0x8F1BBCDC
                 else 0xCA62C1D6);
            temp = word_rotl 5 a + f + e + k + w ! t
        in (temp, a, word_rotl 30 b, c, d))"

definition sha1_block :: "sha1_state \<Rightarrow> byte list \<Rightarrow> sha1_state" where
  "sha1_block h block =
     (let w = sha1_expand 64 (be_words block)
      in case (h, foldl (sha1_round w) h [0..<80]) of
           ((h0, h1, h2, h3, h4), (a, b, c, d, e)) \<Rightarrow>
             (h0 + a, h1 + b, h2 + c, h3 + d, h4 + e))"

function sha1_blocks :: "sha1_state \<Rightarrow> byte list \<Rightarrow> sha1_state" where
  "sha1_blocks h bs =
     (if length bs < 64 then h else sha1_blocks (sha1_block h (take 64 bs)) (drop 64 bs))"
  by pat_completeness auto
termination
  by (relation "measure (\<lambda>(h, bs). length bs)") auto

declare sha1_blocks.simps [simp del]

definition hex_digit :: "nat \<Rightarrow> char" where
  "hex_digit n = ''0123456789abcdef'' ! (n mod 16)"

definition hex32 :: "word32 \<Rightarrow> string" where
  "hex32 w = map (\<lambda>i. hex_digit (unat (drop_bit (4 * (7 - i)) w AND 15))) [0..<8]"

definition sha1_hexdigest :: "byte list \<Rightarrow> string" where
  "sha1_hexdigest m =
     (case sha1_blocks (0x67452301, 0xEFCDAB89, 0x98BADCFE, 0x10325476, 0xC3D2E1F0) (sha1_pad m) of
        (h0, h1, h2, h3, h4) \<Rightarrow> hex32 h0 @ hex32 h1 @ hex32 h2 @ hex32 h3 @ hex32 h4)"

definition make_cache_key :: "string \<Rightarrow> string" where
  "make_cache_key company_name =
     (let normalized = lower (normalize_company_name company_name);
          digest = sha1_hexdigest (encode_utf8 normalized)
      in ''esg:company:'' @ digest)"

subsection \<open>Dates\<close>

text \<open>Truth value of a JSON value (\<^verbatim>\<open>if v\<close>, \<^verbatim>\<open>v or d\<close>).\<close>

fun truthy :: "json \<Rightarrow> bool" where
  "truthy JNull = False"
| "truthy (JBool b) = b"
| "truthy (JInt n) = (n \<noteq> 0)"
| "truthy (JFloat f) = (f \<noteq> Finite 0)"
| "truthy (JStr s) = (s \<noteq> [])"
| "truthy (JArr xs) = (xs \<noteq> [])"
| "truthy (JObj kvs) = (kvs \<noteq> [])"

definition ensure_aware :: "datetime \<Rightarrow> datetime" where
  "ensure_aware dt = (case tzinfo dt of Some off \<Rightarrow> dt | None \<Rightarrow> dt\<lparr>tzinfo := Some 0\<rparr>)"

text \<open>
  \<^verbatim>\<open>safe_parse_datetime\<close>. A false value gives \<open>None\<close>; a true value that is not a string
  makes the parser raise inside the \<^verbatim>\<open>try\<close>, which gives \<open>None\<close> as well.
\<close>

fun safe_parse_datetime :: "libs \<Rightarrow> json \<Rightarrow> datetime option" where
  "safe_parse_datetime L (JStr s) =
     (if s = [] then None else map_option ensure_aware (parser_parse L s))"
| "safe_parse_datetime L v = None"

definition isoformat :: "libs \<Rightarrow> datetime \<Rightarrow> string" where
  "isoformat L dt = dt_isoformat L (ensure_aware dt)"

definition datetime_min :: datetime where
  "datetime_min = \<lparr>wall = 0, tzinfo = None\<rparr>"

subsection \<open>Keyword detection\<close>

definition detect_esg_aspects :: "string \<Rightarrow> (string \<times> string list) list \<Rightarrow> string list" where
  "detect_esg_aspects text keyword_map =
     (let lowered = lower text
      in map fst (filter (\<lambda>(aspect, keywords). list_ex (\<lambda>keyword. contains keyword lowered) keywords)
                    keyword_map))"

subsection \<open>Deduplication and recency\<close>

definition unique_key :: "article \<Rightarrow> string option" where
  "unique_key entry =
     (case filter (\<lambda>kc. kc \<noteq> None \<and> kc \<noteq> Some []) [url entry, title entry] of
        [] \<Rightarrow> None
      | kc # _ \<Rightarrow> kc)"

fun dedup_loop :: "string set \<Rightarrow> article list \<Rightarrow> article list \<Rightarrow> article list" where
  "dedup_loop seen unique [] = unique"
| "dedup_loop seen unique (entry # entries) =
     (case unique_key entry of
        None \<Rightarrow> dedup_loop seen unique entries
      | Some k \<Rightarrow>
          if k \<in> seen then dedup_loop seen unique entries
          else dedup_loop (insert k seen) (unique @ [entry]) entries)"

definition deduplicate_articles :: "article list \<Rightarrow> article list" where
  "deduplicate_articles entries = dedup_loop {} [] entries"

text \<open>
  Ordering of \<^verbatim>\<open>datetime\<close> values: two naive values compare by their fields, two aware
  values by their UTC instants, and comparing a naive with an aware value raises
  \<^verbatim>\<open>TypeError\<close>.
\<close>

definition instant :: "datetime \<Rightarrow> int" where
  "instant dt = (case tzinfo dt of None \<Rightarrow> wall dt | Some off \<Rightarrow> wall dt - off)"

definition comparable :: "datetime \<Rightarrow> datetime \<Rightarrow> bool" where
  "comparable a b = ((tzinfo a = None) = (tzinfo b = None))"

text \<open>
  \<^verbatim>\<open>sorted(xs, key=k, reverse=True)\<close>: the stable descending sort (CPython reverses the
  list, sorts it stably in ascending order and reverses it again).
\<close>

definition sorted_reverse :: "('a \<Rightarrow> 'k::linorder) \<Rightarrow> 'a list \<Rightarrow> 'a list" where
  "sorted_reverse k xs = rev (sort_key k (rev xs))"

text \<open>\<^verbatim>\<open>xs[:limit]\<close>, a negative \<open>limit\<close> counting from the end.\<close>

definition slice_to :: "'a list \<Rightarrow> int \<Rightarrow> 'a list" where
  "slice_to xs limit =
     (if 0 \<le> limit then take (nat limit) xs else take (length xs - nat (- limit)) xs)"

definition latest_key :: "article \<Rightarrow> datetime" where
  "latest_key entry = (case published_at entry of Some dt \<Rightarrow> dt | None \<Rightarrow> datetime_min)"

text \<open>
  \<^verbatim>\<open>take_latest\<close>. A sort that puts a naive and an aware key in one order has compared
  a naive with an aware key, so the call raises \<^verbatim>\<open>TypeError\<close> exactly when both kinds occur.
\<close>

definition take_latest :: "article list \<Rightarrow> int \<Rightarrow> exn + article list" where
  "take_latest entries limit =
     (if list_all (\<lambda>a. list_all (\<lambda>b. comparable (latest_key a) (latest_key b)) entries) entries
      then Inr (slice_to (sorted_reverse (\<lambda>e. instant (latest_key e)) entries) limit)
      else Inl TypeError)"

section \<open>\<^verbatim>\<open>esg/keywords.py\<close>\<close>

definition ENVIRONMENTAL_KEYWORDS :: "string list" where
  "ENVIRONMENTAL_KEYWORDS =
     [''emission'', ''emissions'', ''carbon'', ''pollution'', ''climate'', ''waste'',
      ''deforestation'', ''environment'', ''biodiversity'', ''renewable'', ''sustainability'',
      ''water scarcity'', ''pipeline leak'', ''oil spill'', ''toxic'', ''greenhouse'',
      ''air quality'']"

definition SOCIAL_KEYWORDS :: "string list" where
  "SOCIAL_KEYWORDS =
     [''labour'', ''labor'', ''worker'', ''strike'', ''union'', ''discrimination'',
      ''harassment'', ''human rights'', ''privacy'', ''safety'', ''fatality'', ''community'',
      ''protest'', ''diversity'', ''inclusive'']"

definition GOVERNANCE_KEYWORDS :: "string list" where
  "GOVERNANCE_KEYWORDS =
     [''governance'', ''board'', ''fraud'', ''bribery'', ''audit'', ''corruption'',
      ''whistleblower'', ''accounting'', ''transparency'', ''sebi'', ''sec'', ''compliance'',
      ''tax evasion'', ''money laundering'', ''insider trading'']"

definition ESG_KEYWORDS :: "(string \<times> string list) list" where
  "ESG_KEYWORDS =
     [(''environment'', ENVIRONMENTAL_KEYWORDS),
      (''social'', SOCIAL_KEYWORDS),
      (''governance'', GOVERNANCE_KEYWORDS)]"

section \<open>Exceptions and dictionaries\<close>

definition bind_exn :: "exn + 'a \<Rightarrow> ('a \<Rightarrow> exn + 'b) \<Rightarrow> exn + 'b" where
  "bind_exn m f = (case m of Inl e \<Rightarrow> Inl e | Inr x \<Rightarrow> f x)"

fun map_exn :: "('a \<Rightarrow> exn + 'b) \<Rightarrow> 'a list \<Rightarrow> exn + 'b list" where
  "map_exn f [] = Inr []"
| "map_exn f (x # xs) = bind_exn (f x) (\<lambda>y. bind_exn (map_exn f xs) (\<lambda>ys. Inr (y # ys)))"

text \<open>\<^verbatim>\<open>d.get(k)\<close>, \<^verbatim>\<open>d.get(k, default)\<close> and \<^verbatim>\<open>d[k]\<close> on a dictionary.\<close>

definition dict_get_default :: "(string \<times> 'v) list \<Rightarrow> string \<Rightarrow> 'v \<Rightarrow> 'v" where
  "dict_get_default d k dflt = (case map_of d k of None \<Rightarrow> dflt | Some v \<Rightarrow> v)"

definition dict_get :: "(string \<times> json) list \<Rightarrow> string \<Rightarrow> json" where
  "dict_get d k = dict_get_default d k JNull"

definition dict_item :: "(string \<times> 'v) list \<Rightarrow> string \<Rightarrow> exn + 'v" where
  "dict_item d k = (case map_of d k of None \<Rightarrow> Inl KeyError | Some v \<Rightarrow> Inr v)"

text \<open>\<^verbatim>\<open>d[k] = v\<close>.\<close>

fun dict_set :: "(string \<times> 'v) list \<Rightarrow> string \<Rightarrow> 'v \<Rightarrow> (string \<times> 'v) list" where
  "dict_set [] k v = [(k, v)]"
| "dict_set ((k', v') # d) k v = (if k' = k then (k, v) # d else (k', v') # dict_set d k v)"

text \<open>\<^verbatim>\<open>v.get(k, default)\<close> on a parsed value: only an object has \<^verbatim>\<open>get\<close>.\<close>

definition json_get :: "json \<Rightarrow> string \<Rightarrow> json \<Rightarrow> exn + json" where
  "json_get v k dflt =
     (case v of JObj d \<Rightarrow> Inr (dict_get_default d k dflt) | _ \<Rightarrow> Inl AttributeError)"

text \<open>
  \<^verbatim>\<open>for item in v\<close> on a parsed value: an array gives its elements, a string its
  characters, an object its keys; the other values are not iterable.
\<close>

definition py_iter :: "json \<Rightarrow> exn + json list" where
  "py_iter v =
     (case v of
        JArr xs \<Rightarrow> Inr xs
      | JStr s \<Rightarrow> Inr (map (\<lambda>c. JStr [c]) s)
      | JObj d \<Rightarrow> Inr (map (\<lambda>(k, _). JStr k) d)
      | _ \<Rightarrow> Inl TypeError)"

section \<open>\<^verbatim>\<open>esg/clients.py\<close>\<close>

text \<open>
  The loop over the fenced blocks: the first block that parses is returned, a block that
  raises \<^verbatim>\<open>JSONDecodeError\<close> is skipped, and any other exception leaves the loop.
\<close>

fun first_parsed :: "libs \<Rightarrow> string list \<Rightarrow> exn + json option" where
  "first_parsed L [] = Inr None"
| "first_parsed L (block # blocks) =
     (case json_loads L block of
        Inr v \<Rightarrow> Inr (Some v)
      | Inl e \<Rightarrow> if e = JSONDecodeError then first_parsed L blocks else Inl e)"

definition brace_candidate :: "string \<Rightarrow> string option" where
  "brace_candidate text =
     (case (str_find CHR ''{'' text, str_rfind CHR ''}'' text) of
        (Some start, Some stop) \<Rightarrow>
          if stop > start then Some (take (stop + 1 - start) (drop start text)) else None
      | _ \<Rightarrow> None)"

definition parse_articles_payload :: "libs \<Rightarrow> string \<Rightarrow> exn + json" where
  "parse_articles_payload L raw_text =
     (let text = strip raw_text
      in case json_loads L text of
           Inr v \<Rightarrow> Inr v
         | Inl e \<Rightarrow>
             if e \<noteq> JSONDecodeError then Inl e
             else (case first_parsed L (findall_fenced L text) of
                     Inl e' \<Rightarrow> Inl e'
                   | Inr (Some v) \<Rightarrow> Inr v
                   | Inr None \<Rightarrow>
                       (case brace_candidate text of
                          Some candidate \<Rightarrow> json_loads L candidate
                        | None \<Rightarrow> Inl JSONDecodeError)))"

text \<open>
  A text field of a raw item as the article keeps it. The article record follows the
  annotations of \<^verbatim>\<open>utils.py\<close> (\<^verbatim>\<open>str | None\<close>), so the conversion is modelled for the
  items whose text fields are strings or \<^verbatim>\<open>null\<close>, the fields the prompt asks for. The
  code keeps a field of another JSON type as it is (and \<^verbatim>\<open>' '.join\<close> of the heuristic
  path then raises \<^verbatim>\<open>TypeError\<close> on it); the record has no counterpart for such a
  field, which appears as \<open>None\<close> here. Every statement below that names a returned
  article is about a response whose text fields are strings or \<^verbatim>\<open>null\<close>.
\<close>

definition text_field :: "json \<Rightarrow> string option" where
  "text_field v = (case v of JStr s \<Rightarrow> Some s | _ \<Rightarrow> None)"

fun convert_items :: "libs \<Rightarrow> env \<Rightarrow> nat \<Rightarrow> json list \<Rightarrow> exn + article list" where
  "convert_items L E i [] = Inr []"
| "convert_items L E i (raw # rest) =
     (case raw of
        JObj d \<Rightarrow>
          (let parsed_at =
                 (case safe_parse_datetime L (dict_get d ''published_at'') of
                    Some dt \<Rightarrow> dt
                  | None \<Rightarrow> \<lparr>wall = utcnow E i, tzinfo = None\<rparr>);
               a = \<lparr>title = text_field (dict_get_default d ''title'' (JStr [])),
                    description = text_field (dict_get_default d ''description'' (JStr [])),
                    url = text_field (dict_get d ''url''),
                    source = text_field (dict_get d ''source''),
                    published_at = Some parsed_at,
                    source_type = ''openai_web_search''\<rparr>
           in bind_exn (convert_items L E (Suc i) rest) (\<lambda>as. Inr (a # as)))
      | _ \<Rightarrow> Inl AttributeError)"

definition fetch_articles :: "libs \<Rightarrow> env \<Rightarrow> string \<Rightarrow> int \<Rightarrow> exn + article list" where
  "fetch_articles L E company limit =
     (if \<not> openai_available E then Inr []
      else case search_response E of
             TransportFailure \<Rightarrow> Inr []
           | NoOutputText \<Rightarrow> Inr []
           | OutputText response_text \<Rightarrow>
               (case parse_articles_payload L response_text of
                  Inl e \<Rightarrow> if e = JSONDecodeError then Inr [] else Inl e
                | Inr payload \<Rightarrow>
                    bind_exn (json_get payload ''articles'' (JArr [])) (\<lambda>raw.
                    bind_exn (py_iter raw) (\<lambda>raw_items.
                    bind_exn (convert_items L E 0 raw_items) (\<lambda>articles.
                    take_latest (deduplicate_articles articles) limit)))))"

section \<open>Float arithmetic\<close>

text \<open>
  The operations of binary64 on finite values: the exact result, rounded to the nearest
  double, ties to the even significand. \<open>fl\<close> is that rounding: \<open>exponent q\<close> is the
  integer \<open>e\<close> with \<open>2 ^ e \<le> \<bar>q\<bar> < 2 ^ (e + 1)\<close>, and the doubles near \<open>q\<close> are the
  multiples of \<open>2 ^ (e - 52)\<close>, or of \<open>2 ^ (- 1074)\<close> in the subnormal range. Overflow to
  infinity is not represented: the values computed below are sums and means of scores
  between 0 and 100.
\<close>

function bit_length :: "int \<Rightarrow> nat" where
  "bit_length n = (if n \<le> 0 then 0 else Suc (bit_length (n div 2)))"
  by pat_completeness auto
termination
  by (relation "measure nat") auto

declare bit_length.simps [simp del]

definition pow2 :: "int \<Rightarrow> rat" where
  "pow2 e = (if 0 \<le> e then 2 ^ nat e else 1 / 2 ^ nat (- e))"

definition exponent :: "rat \<Rightarrow> int" where
  "exponent q =
     (case quotient_of \<bar>q\<bar> of (a, b) \<Rightarrow>
        let d = int (bit_length a) - int (bit_length b)
        in if pow2 d \<le> \<bar>q\<bar> then d else d - 1)"

text \<open>Rounding to an integer, ties to the even neighbour.\<close>

definition round_half_even :: "rat \<Rightarrow> int" where
  "round_half_even x =
     (let f = \<lfloor>x\<rfloor>; d = x - of_int f
      in if d < 1 / 2 then f
         else if 1 / 2 < d then f + 1
         else if even f then f else f + 1)"

definition fl :: "rat \<Rightarrow> rat" where
  "fl q =
     (if q = 0 then 0
      else let ulp = pow2 (max (exponent q) (- 1022) - 52)
           in of_int (round_half_even (q / ulp)) * ulp)"

definition float_add :: "rat \<Rightarrow> rat \<Rightarrow> rat" where
  "float_add a b = fl (a + b)"

definition float_mul :: "rat \<Rightarrow> rat \<Rightarrow> rat" where
  "float_mul a b = fl (a * b)"

definition float_div :: "rat \<Rightarrow> rat \<Rightarrow> rat" where
  "float_div a b = fl (a / b)"

text \<open>
  \<^verbatim>\<open>round(x, 2)\<close> on a float: CPython rounds the exact value of the double to two
  decimals, ties to even, and returns the double nearest to that decimal.
\<close>

definition round2 :: "rat \<Rightarrow> rat" where
  "round2 x = fl (of_int (round_half_even (x * 100)) / 100)"

section \<open>\<^verbatim>\<open>esg/services.py\<close>\<close>

definition WEIGHTS :: "(string \<times> int) list" where
  "WEIGHTS = [(''environment'', 4), (''social'', 3), (''governance'', 3)]"

text \<open>
  \<^verbatim>\<open>float(value)\<close>. \<open>Inr None\<close> is the \<^verbatim>\<open>TypeError\<close> or \<^verbatim>\<open>ValueError\<close> that
  \<^verbatim>\<open>_coerce_score\<close> catches; an integer is rounded to the nearest double, and one too
  large for a \<^verbatim>\<open>float\<close> raises \<^verbatim>\<open>OverflowError\<close>, which \<^verbatim>\<open>_coerce_score\<close> does not catch.
\<close>

definition to_float :: "libs \<Rightarrow> json \<Rightarrow> exn + pyfloat option" where
  "to_float L v =
     (case v of
        JNull \<Rightarrow> Inr None
      | JBool b \<Rightarrow> Inr (Some (Finite (if b then 1 else 0)))
      | JInt n \<Rightarrow>
          if 2 ^ 1024 - 2 ^ 970 \<le> \<bar>n\<bar> then Inl OverflowError
          else Inr (Some (Finite (fl (of_int n))))
      | JFloat f \<Rightarrow> Inr (Some f)
      | JStr s \<Rightarrow> Inr (float_of_str L s)
      | JArr _ \<Rightarrow> Inr None
      | JObj _ \<Rightarrow> Inr None)"

text \<open>
  \<^verbatim>\<open>max(0.0, min(100.0, number))\<close>. Every comparison with NaN is false, so
  \<^verbatim>\<open>min(100.0, nan)\<close> keeps its first argument.
\<close>

fun clamp :: "pyfloat \<Rightarrow> rat" where
  "clamp (Finite q) = max 0 (min 100 q)"
| "clamp PosInf = 100"
| "clamp NegInf = 0"
| "clamp NaN = 100"

definition coerce_score :: "libs \<Rightarrow> json \<Rightarrow> rat \<Rightarrow> exn + rat" where
  "coerce_score L v dflt =
     bind_exn (to_float L v)
       (\<lambda>r. case r of None \<Rightarrow> Inr dflt | Some number \<Rightarrow> Inr (clamp number))"

definition calculate_weighted_score :: "libs \<Rightarrow> (string \<times> json) list \<Rightarrow> exn + rat" where
  "calculate_weighted_score L sc =
     (let total_weight = sum_list (map snd WEIGHTS)
      in bind_exn (dict_item WEIGHTS ''environment'') (\<lambda>we.
         bind_exn (coerce_score L (dict_get sc ''environment'') 0) (\<lambda>e.
         bind_exn (dict_item WEIGHTS ''social'') (\<lambda>ws.
         bind_exn (coerce_score L (dict_get sc ''social'') 0) (\<lambda>s.
         bind_exn (dict_item WEIGHTS ''governance'') (\<lambda>wg.
         bind_exn (coerce_score L (dict_get sc ''governance'') 0) (\<lambda>g.
           let weighted_sum =
                 float_add (float_add (float_mul (of_int we) e) (float_mul (of_int ws) s))
                   (float_mul (of_int wg) g)
           in Inr (if total_weight \<noteq> 0
                   then round2 (float_div weighted_sum (of_int total_weight))
                   else 0))))))))"

definition format_display_date :: "libs \<Rightarrow> json \<Rightarrow> json" where
  "format_display_date L v =
     (case (if truthy v then safe_parse_datetime L v else None) of
        None \<Rightarrow> if truthy v then v else JStr ''N/A''
      | Some dt \<Rightarrow> JStr (strftime_display L dt))"

text \<open>
  \<^verbatim>\<open>item.get('scores') or {}\<close>, as the dictionary that \<^verbatim>\<open>scores.get\<close> reads: a true value
  that is no object has no \<^verbatim>\<open>get\<close>.
\<close>

definition scores_dict :: "json \<Rightarrow> exn + (string \<times> json) list" where
  "scores_dict sv =
     (if truthy sv then (case sv of JObj sd \<Rightarrow> Inr sd | _ \<Rightarrow> Inl AttributeError)
      else Inr [])"

definition normalize_item_structure :: "libs \<Rightarrow> json \<Rightarrow> exn + item" where
  "normalize_item_structure L raw =
     (case raw of
        JObj d \<Rightarrow>
          bind_exn (scores_dict (dict_get d ''scores'')) (\<lambda>sc.
          bind_exn (coerce_score L (dict_get sc ''environment'') 0) (\<lambda>e.
          bind_exn (coerce_score L (dict_get sc ''social'') 0) (\<lambda>s.
          bind_exn (coerce_score L (dict_get sc ''governance'') 0) (\<lambda>g.
          bind_exn (calculate_weighted_score L
                      [(''environment'', JFloat (Finite e)),
                       (''social'', JFloat (Finite s)),
                       (''governance'', JFloat (Finite g))]) (\<lambda>dflt.
          bind_exn (coerce_score L (dict_get sc ''overall'') dflt) (\<lambda>ov.
            let date_value = (if truthy (dict_get d ''date'') then dict_get d ''date''
                              else dict_get d ''published_at'')
            in Inr \<lparr>item_title = dict_get_default d ''title'' (JStr []),
                    item_description = dict_get_default d ''description'' (JStr []),
                    date = date_value,
                    display_date = format_display_date L date_value,
                    item_source = dict_get d ''source'',
                    item_url = dict_get d ''url'',
                    scores = \<lparr>environment = e, social = s, governance = g,
                               overall = ov\<rparr>\<rparr>))))))
      | _ \<Rightarrow> Inl AttributeError)"

text \<open>
  \<^verbatim>\<open>_compute_overall_score\<close>. Every \<open>overall\<close> of an item is a number, so the
  \<^verbatim>\<open>isinstance\<close> filter keeps them all.
\<close>

definition compute_overall_score :: "libs \<Rightarrow> item list \<Rightarrow> rat" where
  "compute_overall_score L its =
     (if its = [] then 0
      else round2 (float_div (float_sum L (map (\<lambda>it. overall (scores it)) its))
                     (of_nat (length its))))"

definition sort_items_by_score :: "item list \<Rightarrow> item list" where
  "sort_items_by_score its = sorted_reverse (\<lambda>it. overall (scores it)) its"

definition execute_openai_prompt :: "env \<Rightarrow> exn + string" where
  "execute_openai_prompt E =
     (if \<not> openai_available E then Inl ESGServiceError
      else case scoring_response E of
             TransportFailure \<Rightarrow> Inl ESGServiceError
           | NoOutputText \<Rightarrow> Inl ESGServiceError
           | OutputText response_text \<Rightarrow> Inr response_text)"

definition analyse_with_openai :: "libs \<Rightarrow> env \<Rightarrow> string \<Rightarrow> article list \<Rightarrow> exn + analysis" where
  "analyse_with_openai L E company articles =
     bind_exn (execute_openai_prompt E) (\<lambda>response_text.
       case json_loads L response_text of
         Inl e \<Rightarrow> if e = JSONDecodeError then Inl ESGServiceError else Inl e
       | Inr parsed \<Rightarrow>
           bind_exn (json_get parsed ''items'' (JArr [])) (\<lambda>raw.
           bind_exn (py_iter raw) (\<lambda>raw_items.
           bind_exn (map_exn (normalize_item_structure L) raw_items) (\<lambda>normalized.
           bind_exn (json_get parsed ''overall_score'' JNull) (\<lambda>given.
             let its = sort_items_by_score normalized;
                 score = (if given = JNull then JFloat (Finite (compute_overall_score L its))
                          else given)
             in Inr \<lparr>items = its,
                     overall_score = (if truthy score then score else JInt 0)\<rparr>)))))"

definition of_text :: "string option \<Rightarrow> json" where
  "of_text v = (case v of None \<Rightarrow> JNull | Some s \<Rightarrow> JStr s)"

text \<open>\<^verbatim>\<open>' '.join(filter(None, [article.get('title', ''), article.get('description', '')]))\<close>.\<close>

definition article_text :: "article \<Rightarrow> string" where
  "article_text a =
     join_space (filter (\<lambda>p. p \<noteq> []) (List.map_filter (\<lambda>v. v) [title a, description a]))"

text \<open>The body of the loop of \<^verbatim>\<open>_analyse_with_heuristics\<close>: the item of one article.\<close>

definition heuristic_item :: "libs \<Rightarrow> article \<Rightarrow> exn + item" where
  "heuristic_item L a =
     (let text = article_text a;
          aspects = detect_esg_aspects text ESG_KEYWORDS;
          base_score = 70;
          sc = foldl (\<lambda>d aspect. dict_set d aspect base_score)
                 [(''environment'', 0 :: int), (''social'', 0), (''governance'', 0)] aspects
      in bind_exn (calculate_weighted_score L (map (\<lambda>(k, v). (k, JInt v)) sc)) (\<lambda>ov.
           let date_iso = (case published_at a of
                             Some dt \<Rightarrow> JStr (isoformat L dt)
                           | None \<Rightarrow> JNull)
           in bind_exn (dict_item sc ''environment'') (\<lambda>e.
              bind_exn (dict_item sc ''social'') (\<lambda>s.
              bind_exn (dict_item sc ''governance'') (\<lambda>g.
                Inr \<lparr>item_title = of_text (title a),
                     item_description = of_text (description a),
                     date = date_iso,
                     display_date = format_display_date L date_iso,
                     item_source = of_text (source a),
                     item_url = of_text (url a),
                     scores = \<lparr>environment = of_int e, social = of_int s,
                                governance = of_int g, overall = ov\<rparr>\<rparr>)))))"

definition analyse_with_heuristics :: "libs \<Rightarrow> article list \<Rightarrow> exn + analysis" where
  "analyse_with_heuristics L articles =
     bind_exn (map_exn (heuristic_item L) articles) (\<lambda>collected.
       let its = sort_items_by_score collected
       in Inr \<lparr>items = its, overall_score = JFloat (Finite (compute_overall_score L its))\<rparr>)"

definition analyse_articles :: "libs \<Rightarrow> env \<Rightarrow> string \<Rightarrow> article list \<Rightarrow> exn + analysis" where
  "analyse_articles L E company articles =
     (if articles = [] then Inr \<lparr>items = [], overall_score = JInt 0\<rparr>
      else if openai_available E
      then (case analyse_with_openai L E company articles of
              Inr r \<Rightarrow> Inr r
            | Inl e \<Rightarrow>
                if e = ESGServiceError then analyse_with_heuristics L articles else Inl e)
      else analyse_with_heuristics L articles)"

section \<open>\<^verbatim>\<open>esg/history.py\<close>\<close>

text \<open>
  \<^verbatim>\<open>SearchHistory.objects.filter(user_id=user_id).order_by('-searched_at')\<close> over the
  table's rows; rows of equal \<open>searched_at\<close> are returned in the table's order.
\<close>

definition query_recent :: "search_history list \<Rightarrow> int \<Rightarrow> search_history list" where
  "query_recent table uid = sorted_reverse row_searched_at (filter (\<lambda>r. row_user_id r = uid) table)"

fun recent_loop ::
  "string set \<Rightarrow> (string \<times> int) list \<Rightarrow> search_history list \<Rightarrow> int \<Rightarrow> (string \<times> int) list" where
  "recent_loop seen results [] limit = results"
| "recent_loop seen results (entry # qs) limit =
     (let key = lower (row_company_name entry)
      in if key \<in> seen then recent_loop seen results qs limit
         else let results' = results @ [(row_company_name entry, row_searched_at entry)]
              in if limit \<le> int (length results') then results'
                 else recent_loop (insert key seen) results' qs limit)"

definition get_recent_searches :: "search_history list \<Rightarrow> int \<Rightarrow> int \<Rightarrow> (string \<times> int) list" where
  "get_recent_searches table uid limit =
     (if uid = 0 then [] else recent_loop {} [] (query_recent table uid) limit)"

section \<open>Auxiliary notions for the statements\<close>

text \<open>
  The positions of \<open>es\<close> that hold the first entry with their key, among the keys
  outside \<open>seen\<close>.
\<close>

definition first_of_key :: "article list \<Rightarrow> string set \<Rightarrow> nat set" where
  "first_of_key es seen =
     {i. \<exists>k. unique_key (es ! i) = Some k \<and> k \<notin> seen
            \<and> (\<forall>j<i. unique_key (es ! j) \<noteq> Some k)}"

text \<open>An article with the given title and address and the given publication time.\<close>

definition ex_article :: "string option \<Rightarrow> string option \<Rightarrow> datetime option \<Rightarrow> article" where
  "ex_article t u p =
     \<lparr>title = t, description = Some [], url = u, source = None,
      published_at = p, source_type = ''openai_web_search''\<rparr>"

text \<open>
  An instance of the library functions, for the examples: \<^verbatim>\<open>json.loads\<close> reads the texts
  of \<open>table\<close> and raises \<^verbatim>\<open>JSONDecodeError\<close> on every other text, the date parser reads
  \<^verbatim>\<open>2024-01-01\<close> (a naive value) and rejects every other string, no fenced block is
  found, \<^verbatim>\<open>float\<close> reads no string, and \<^verbatim>\<open>sum\<close> adds from left to right.
\<close>

definition ex_libs :: "(string \<times> json) list \<Rightarrow> libs" where
  "ex_libs table =
     \<lparr>parser_parse = (\<lambda>s. if s = ''2024-01-01'' then Some \<lparr>wall = 100, tzinfo = None\<rparr> else None),
      dt_isoformat = (\<lambda>d. []),
      strftime_display = (\<lambda>d. []),
      json_loads = (\<lambda>t. case map_of table t of Some v \<Rightarrow> Inr v | None \<Rightarrow> Inl JSONDecodeError),
      findall_fenced = (\<lambda>t. []),
      float_of_str = (\<lambda>s. None),
      float_sum = foldl float_add 0\<rparr>"

text \<open>The same instance, except that \<^verbatim>\<open>json.loads\<close> raises \<open>e\<close> on the text \<open>t\<close>.\<close>

definition ex_libs_raising :: "string \<Rightarrow> exn \<Rightarrow> libs" where
  "ex_libs_raising t e =
     (ex_libs [])\<lparr>json_loads := (\<lambda>s. if s = t then Inl e else Inl JSONDecodeError)\<rparr>"

text \<open>An instance of the surroundings; the clock advances by one per item.\<close>

definition ex_env :: "bool \<Rightarrow> response \<Rightarrow> response \<Rightarrow> env" where
  "ex_env available searched scored =
     \<lparr>openai_available = available, search_response = searched, scoring_response = scored,
      utcnow = (\<lambda>i. 1000 + int i)\<rparr>"

text \<open>
  Some keyword of the list occurs in the lowered text of the article, and the score the
  heuristic path gives the axis of that list.
\<close>

definition hit :: "article \<Rightarrow> string list \<Rightarrow> bool" where
  "hit a keywords = list_ex (\<lambda>keyword. contains keyword (lower (article_text a))) keywords"

definition axis :: "article \<Rightarrow> string list \<Rightarrow> int" where
  "axis a keywords = (if hit a keywords then 70 else 0)"

section \<open>Properties of \<^verbatim>\<open>normalize_company_name\<close>\<close>

text \<open>
  Two invariants of the output: \<open>trimmed\<close>, no whitespace at either end, and
  \<open>single_spaced\<close>, every whitespace character is a space that no whitespace follows.
\<close>

lemma isspace_space: "isspace CHR '' ''"
  by (simp add: isspace_def)

lemma dropWhile_hd: "dropWhile P xs \<noteq> [] \<Longrightarrow> \<not> P (hd (dropWhile P xs))"
  by (metis hd_dropWhile)

lemma hd_sub_spaces:
  "t \<noteq> [] \<Longrightarrow> \<not> isspace (hd t) \<Longrightarrow> sub_spaces t \<noteq> [] \<and> hd (sub_spaces t) = hd t"
  by (cases t) auto

lemma single_spaced_sub_spaces: "single_spaced (sub_spaces t)"
proof (induction t rule: sub_spaces.induct)
  case 1
  show ?case by simp
next
  case (2 c cs)
  show ?case
  proof (cases "isspace c")
    case True
    let ?r = "dropWhile isspace cs"
    have "sub_spaces ?r = [] \<or> \<not> isspace (hd (sub_spaces ?r))"
    proof (cases "?r = []")
      case True
      then show ?thesis by (simp only: sub_spaces.simps simp_thms)
    next
      case False
      then have "\<not> isspace (hd ?r)" by (rule dropWhile_hd)
      with False show ?thesis using hd_sub_spaces by simp
    qed
    with True 2 show ?thesis by simp
  next
    case False
    with 2 show ?thesis by simp
  qed
qed

lemma sub_spaces_fixed: "single_spaced r \<Longrightarrow> sub_spaces r = r"
proof (induction r)
  case Nil
  show ?case by simp
next
  case (Cons c cs)
  show ?case
  proof (cases "isspace c")
    case True
    with Cons.prems have "dropWhile isspace cs = cs"
      by (cases cs) auto
    with True Cons show ?thesis by simp
  next
    case False
    with Cons show ?thesis by simp
  qed
qed

lemma last_sub_spaces:
  "t \<noteq> [] \<Longrightarrow> \<not> isspace (last t) \<Longrightarrow> sub_spaces t \<noteq> [] \<and> last (sub_spaces t) = last t"
proof (induction t rule: sub_spaces.induct)
  case 1
  then show ?case by simp
next
  case (2 c cs)
  show ?case
  proof (cases "isspace c")
    case True
    with "2.prems" have ne: "cs \<noteq> []" by auto
    let ?r = "dropWhile isspace cs"
    from ne "2.prems" have l: "\<not> isspace (last cs)" by simp
    have rne: "?r \<noteq> []"
      using l ne by (metis dropWhile_eq_Nil_conv last_in_set)
    have "last ?r = last cs"
      using rne by (metis last_appendR takeWhile_dropWhile_id)
    with rne l True "2.IH"(1) ne show ?thesis by simp
  next
    case False
    show ?thesis
    proof (cases "cs = []")
      case True
      then show ?thesis using False by simp
    next
      case ne: False
      with "2.prems" have "\<not> isspace (last cs)" by simp
      with "2.IH"(2) False ne show ?thesis by simp
    qed
  qed
qed

lemma trimmed_strip: "trimmed (strip s)"
proof (cases "strip s = []")
  case True
  then show ?thesis by (simp add: trimmed_def)
next
  case False
  let ?d = "dropWhile isspace s"
  let ?e = "dropWhile isspace (rev ?d)"
  from False have e: "?e \<noteq> []" by (simp add: strip_def)
  then have he: "\<not> isspace (hd ?e)" by (rule dropWhile_hd)
  have la: "last (strip s) = hd ?e" using e by (simp add: strip_def last_rev)
  have d: "?d \<noteq> []"
  proof
    assume "?d = []"
    then have "?e = []" by (simp only: rev.simps dropWhile.simps)
    with e show False ..
  qed
  then have hd: "\<not> isspace (hd ?d)" by (rule dropWhile_hd)
  obtain k where k: "?e = drop k (rev ?d)"
    by (metis dropWhile_eq_drop)
  have "strip s = take (length ?d - k) ?d"
    by (simp add: strip_def k rev_drop)
  with False have "hd (strip s) = hd ?d"
    by (metis hd_take take_eq_Nil2 neq0_conv)
  with hd he la show ?thesis by (simp add: trimmed_def)
qed

lemma strip_fixed: "trimmed t \<Longrightarrow> strip t = t"
proof (cases "t = []")
  case True
  then show ?thesis by (simp add: strip_def)
next
  case False
  assume "trimmed t"
  with False have h: "\<not> isspace (hd t)" and l: "\<not> isspace (last t)"
    by (auto simp: trimmed_def)
  from h False have 1: "dropWhile isspace t = t" by (cases t) auto
  from l False have "\<not> isspace (hd (rev t))" by (simp add: hd_rev)
  with False have 2: "dropWhile isspace (rev t) = rev t" by (cases "rev t") auto
  show ?thesis by (simp add: strip_def 1 2)
qed

lemma trimmed_sub_spaces: "trimmed t \<Longrightarrow> trimmed (sub_spaces t)"
  unfolding trimmed_def using hd_sub_spaces last_sub_spaces by (cases "t = []") auto

lemma single_spaced_nth:
  "single_spaced r \<Longrightarrow> Suc i < length r \<Longrightarrow> \<not> (isspace (r ! i) \<and> isspace (r ! Suc i))"
proof (induction r arbitrary: i)
  case Nil
  then show ?case by simp
next
  case (Cons c cs)
  show ?case
  proof (cases i)
    case 0
    with Cons.prems show ?thesis by (cases cs) auto
  next
    case (Suc j)
    with Cons show ?thesis by simp
  qed
qed

lemma trimmed_normalize: "trimmed (normalize_company_name s)"
  unfolding normalize_company_name_def by (rule trimmed_sub_spaces) (rule trimmed_strip)

lemma single_spaced_normalize: "single_spaced (normalize_company_name s)"
  unfolding normalize_company_name_def by (rule single_spaced_sub_spaces)

text \<open>
  Claim C10. \<^verbatim>\<open>normalize_company_name\<close> is idempotent; its output neither starts nor
  ends with a whitespace character, and no two adjacent characters of it are both
  whitespace.
\<close>

theorem normalize_company_name_idempotent:
  "normalize_company_name (normalize_company_name s) = normalize_company_name s
   \<and> (normalize_company_name s \<noteq> [] \<longrightarrow>
        \<not> isspace (hd (normalize_company_name s))
        \<and> \<not> isspace (last (normalize_company_name s)))
   \<and> (\<forall>i. Suc i < length (normalize_company_name s) \<longrightarrow>
        \<not> (isspace (normalize_company_name s ! i)
           \<and> isspace (normalize_company_name s ! Suc i)))"
proof -
  let ?n = "normalize_company_name s"
  have t: "trimmed ?n" by (rule trimmed_normalize)
  have c: "single_spaced ?n" by (rule single_spaced_normalize)
  have "normalize_company_name ?n = sub_spaces ?n"
    using strip_fixed [OF t] by (simp add: normalize_company_name_def)
  also have "\<dots> = ?n" using c by (rule sub_spaces_fixed)
  finally have i: "normalize_company_name ?n = ?n" .
  from t have "?n \<noteq> [] \<longrightarrow> \<not> isspace (hd ?n) \<and> \<not> isspace (last ?n)"
    by (auto simp: trimmed_def)
  with i c show ?thesis using single_spaced_nth by blast
qed

theorem normalize_company_name_idempotent_witness:
  "normalize_company_name ''  Adani   Power '' = ''Adani Power''
   \<and> normalize_company_name ''Adani Power'' = ''Adani Power''
   \<and> \<not> isspace (hd ''Adani Power'') \<and> \<not> isspace (last ''Adani Power'')
   \<and> \<not> (isspace (''Adani Power'' ! 5) \<and> isspace (''Adani Power'' ! Suc 5))"
proof -
  have e: "normalize_company_name ''  Adani   Power '' = ''Adani Power''"
    by code_simp
  note t = normalize_company_name_idempotent [of "''  Adani   Power ''", unfolded e]
  from t have 1: "normalize_company_name ''Adani Power'' = ''Adani Power''" by (rule conjunct1)
  from t have 2: "\<not> isspace (hd ''Adani Power'') \<and> \<not> isspace (last ''Adani Power'')"
    by simp
  from t have "\<forall>i. Suc i < length ''Adani Power'' \<longrightarrow>
      \<not> (isspace (''Adani Power'' ! i) \<and> isspace (''Adani Power'' ! Suc i))"
    by (rule conjunct2 [THEN conjunct2])
  then have "Suc 5 < length ''Adani Power'' \<longrightarrow>
      \<not> (isspace (''Adani Power'' ! 5) \<and> isspace (''Adani Power'' ! Suc 5))"
    by (rule spec)
  then have 3: "\<not> (isspace (''Adani Power'' ! 5) \<and> isspace (''Adani Power'' ! Suc 5))"
    by simp
  from e 1 2 3 show ?thesis by (intro conjI) simp_all
qed

section \<open>Properties of \<^verbatim>\<open>deduplicate_articles\<close>\<close>

lemma unique_key_cases:
  "unique_key e =
     (if url e \<noteq> None \<and> url e \<noteq> Some [] then url e
      else if title e \<noteq> None \<and> title e \<noteq> Some [] then title e
      else None)"
  by (simp add: unique_key_def)

lemma all_less_Suc_split: "(\<forall>j<Suc i. P j) \<longleftrightarrow> P 0 \<and> (\<forall>j<i. P (Suc j))"
  by (auto simp: less_Suc_eq_0_disj)

lemma first_of_key_zero:
  "0 \<in> first_of_key (e # es) seen \<longleftrightarrow> (\<exists>k. unique_key e = Some k \<and> k \<notin> seen)"
  by (simp add: first_of_key_def)

lemma first_of_key_Suc:
  "{j. Suc j \<in> first_of_key (e # es) seen} =
     first_of_key es (case unique_key e of None \<Rightarrow> seen | Some k \<Rightarrow> insert k seen)"
proof (cases "unique_key e")
  case None
  then show ?thesis
    by (simp add: first_of_key_def all_less_Suc_split)
next
  case (Some k0)
  then show ?thesis
    by (auto simp: first_of_key_def all_less_Suc_split)
qed

text \<open>The loop, for any state it is entered in.\<close>

lemma dedup_loop_nths:
  "dedup_loop seen unique es = unique @ nths es (first_of_key es seen)"
proof (induction es arbitrary: seen unique)
  case Nil
  show ?case by simp
next
  case (Cons e es)
  show ?case
  proof (cases "unique_key e")
    case None
    then show ?thesis
      using Cons.IH [of seen unique]
      by (simp add: nths_Cons first_of_key_zero first_of_key_Suc)
  next
    case (Some k)
    show ?thesis
    proof (cases "k \<in> seen")
      case True
      then have "insert k seen = seen" by auto
      with Some True show ?thesis
        using Cons.IH [of seen unique]
        by (simp add: nths_Cons first_of_key_zero first_of_key_Suc)
    next
      case False
      with Some show ?thesis
        using Cons.IH [of "insert k seen" "unique @ [e]"]
        by (simp add: nths_Cons first_of_key_zero first_of_key_Suc)
    qed
  qed
qed

text \<open>
  Claim C5. \<^verbatim>\<open>deduplicate_articles\<close> returns, in input order, exactly the entries at
  the positions that hold the first occurrence of their identity key, the key being the
  first non-empty of \<open>url\<close> and \<open>title\<close>. So of two entries with the same \<open>url\<close> only the
  first survives, of two entries without \<open>url\<close> and with the same \<open>title\<close> only the first
  survives, and an entry with neither is dropped.
\<close>

theorem deduplicate_articles_first_occurrence:
  "deduplicate_articles entries =
     nths entries {i. \<exists>k. unique_key (entries ! i) = Some k
                        \<and> (\<forall>j<i. unique_key (entries ! j) \<noteq> Some k)}
   \<and> unique_key e =
       (if url e \<noteq> None \<and> url e \<noteq> Some [] then url e
        else if title e \<noteq> None \<and> title e \<noteq> Some [] then title e
        else None)
   \<and> (u \<noteq> [] \<and> url a = Some u \<and> url b = Some u \<longrightarrow> deduplicate_articles [a, b] = [a])
   \<and> (url a \<in> {None, Some []} \<and> url b \<in> {None, Some []}
        \<and> t \<noteq> [] \<and> title a = Some t \<and> title b = Some t \<longrightarrow>
          deduplicate_articles [a, b] = [a])
   \<and> (url e \<in> {None, Some []} \<and> title e \<in> {None, Some []} \<longrightarrow>
          e \<notin> set (deduplicate_articles entries))"
proof -
  have n: "deduplicate_articles entries =
     nths entries {i. \<exists>k. unique_key (entries ! i) = Some k
                        \<and> (\<forall>j<i. unique_key (entries ! j) \<noteq> Some k)}"
    by (simp add: deduplicate_articles_def dedup_loop_nths first_of_key_def)
  have k: "unique_key e =
       (if url e \<noteq> None \<and> url e \<noteq> Some [] then url e
        else if title e \<noteq> None \<and> title e \<noteq> Some [] then title e
        else None)"
    by (rule unique_key_cases)
  have u: "u \<noteq> [] \<and> url a = Some u \<and> url b = Some u \<longrightarrow> deduplicate_articles [a, b] = [a]"
    by (simp add: deduplicate_articles_def unique_key_cases)
  have t: "url a \<in> {None, Some []} \<and> url b \<in> {None, Some []}
        \<and> t \<noteq> [] \<and> title a = Some t \<and> title b = Some t \<longrightarrow>
          deduplicate_articles [a, b] = [a]"
    by (auto simp: deduplicate_articles_def unique_key_cases)
  have d: "url e \<in> {None, Some []} \<and> title e \<in> {None, Some []} \<longrightarrow>
          e \<notin> set (deduplicate_articles entries)"
  proof
    assume "url e \<in> {None, Some []} \<and> title e \<in> {None, Some []}"
    then have "unique_key e = None" by (auto simp: unique_key_cases)
    then show "e \<notin> set (deduplicate_articles entries)"
      unfolding n by (auto simp: set_nths)
  qed
  from n k u t d show ?thesis by (intro conjI)
qed

theorem deduplicate_articles_first_occurrence_witness:
  "deduplicate_articles
     [ex_article (Some ''Spill'') (Some ''http://a'') None,
      ex_article (Some ''Leak'') (Some ''http://a'') None]
     = [ex_article (Some ''Spill'') (Some ''http://a'') None]
   \<and> deduplicate_articles
     [ex_article (Some ''Spill'') None None, ex_article (Some ''Spill'') (Some []) None]
     = [ex_article (Some ''Spill'') None None]
   \<and> ex_article None (Some []) None
       \<notin> set (deduplicate_articles
                [ex_article None (Some []) None, ex_article (Some ''Spill'') None None])"
proof -
  let ?a = "ex_article (Some ''Spill'') (Some ''http://a'') None"
  let ?b = "ex_article (Some ''Leak'') (Some ''http://a'') None"
  let ?c = "ex_article (Some ''Spill'') None None"
  let ?d = "ex_article (Some ''Spill'') (Some []) None"
  let ?e = "ex_article None (Some []) None"
  have "''http://a'' \<noteq> [] \<and> url ?a = Some ''http://a'' \<and> url ?b = Some ''http://a''
          \<longrightarrow> deduplicate_articles [?a, ?b] = [?a]"
    by (rule deduplicate_articles_first_occurrence
        [THEN conjunct2, THEN conjunct2, THEN conjunct1])
  then have 1: "deduplicate_articles [?a, ?b] = [?a]"
    by (simp add: ex_article_def)
  have "url ?c \<in> {None, Some []} \<and> url ?d \<in> {None, Some []}
          \<and> ''Spill'' \<noteq> [] \<and> title ?c = Some ''Spill'' \<and> title ?d = Some ''Spill''
          \<longrightarrow> deduplicate_articles [?c, ?d] = [?c]"
    by (rule deduplicate_articles_first_occurrence
        [THEN conjunct2, THEN conjunct2, THEN conjunct2, THEN conjunct1])
  then have 2: "deduplicate_articles [?c, ?d] = [?c]"
    by (simp add: ex_article_def)
  have "url ?e \<in> {None, Some []} \<and> title ?e \<in> {None, Some []}
          \<longrightarrow> ?e \<notin> set (deduplicate_articles [?e, ?c])"
    by (rule deduplicate_articles_first_occurrence
        [THEN conjunct2, THEN conjunct2, THEN conjunct2, THEN conjunct2])
  then have 3: "?e \<notin> set (deduplicate_articles [?e, ?c])"
    by (simp add: ex_article_def)
  from 1 2 3 show ?thesis by (intro conjI)
qed

section \<open>Properties of \<^verbatim>\<open>take_latest\<close>\<close>

lemma mset_sorted_reverse: "mset (sorted_reverse k xs) = mset xs"
  by (simp add: sorted_reverse_def)

lemma length_sorted_reverse: "length (sorted_reverse k xs) = length xs"
  by (simp add: sorted_reverse_def)

lemma sorted_reverse_descending: "sorted_wrt (\<lambda>a b. k b \<le> k a) (sorted_reverse k xs)"
proof -
  have "sorted (map k (sort_key k (rev xs)))" by (rule sorted_sort_key)
  then have "sorted_wrt (\<lambda>a b. k a \<le> k b) (sort_key k (rev xs))"
    by (simp add: sorted_map)
  then show ?thesis
    by (simp add: sorted_reverse_def sorted_wrt_rev)
qed

lemma sorted_reverse_stable:
  "filter (\<lambda>x. k x = v) (sorted_reverse k xs) = filter (\<lambda>x. k x = v) xs"
proof -
  have "filter (\<lambda>x. k x = v) (sorted_reverse k xs)
          = rev (filter (\<lambda>x. k x = v) (sort_key k (rev xs)))"
    by (simp add: sorted_reverse_def rev_filter)
  also have "\<dots> = rev (filter (\<lambda>x. k x = v) (rev xs))"
    by (simp only: sort_key_stable)
  also have "\<dots> = filter (\<lambda>x. k x = v) xs"
    by (simp add: rev_filter)
  finally show ?thesis .
qed

lemma filter_take_prefix: "prefix (filter P (take n xs)) (filter P xs)"
proof -
  have "filter P xs = filter P (take n xs) @ filter P (drop n xs)"
    by (metis append_take_drop_id filter_append)
  then show ?thesis by (simp add: prefix_def)
qed

lemma mset_take_subseteq: "mset (take n xs) \<subseteq># mset xs"
  by (metis append_take_drop_id mset_append mset_subset_eq_add_left)

text \<open>
  Claim C6, as stated, fails on the code in two ways: \<^verbatim>\<open>entries[:limit]\<close> with a
  negative \<open>limit\<close> drops that many entries from the end and keeps the others, and a list
  holding both a naive and an aware key cannot be sorted.
\<close>

theorem take_latest_counterexample:
  "take_latest [ex_article None None (Some \<lparr>wall = 10, tzinfo = None\<rparr>),
                ex_article None None (Some \<lparr>wall = 20, tzinfo = None\<rparr>)] (- 1)
     = Inr [ex_article None None (Some \<lparr>wall = 20, tzinfo = None\<rparr>)]
   \<and> \<not> int (length [ex_article None None (Some \<lparr>wall = 20, tzinfo = None\<rparr>)]) \<le> - 1
   \<and> take_latest [ex_article None None (Some \<lparr>wall = 10, tzinfo = Some 0\<rparr>),
                  ex_article None None (Some \<lparr>wall = 20, tzinfo = None\<rparr>)] 5
     = Inl TypeError"
  by (simp add: take_latest_def slice_to_def sorted_reverse_def latest_key_def comparable_def
      instant_def ex_article_def)

text \<open>
  Claim C6, amended. For entries whose sort keys are mutually comparable (all naive or
  all aware) and a non-negative \<open>limit\<close>, \<^verbatim>\<open>take_latest\<close> returns
  \<open>min limit (length entries)\<close> of the entries, hence at most \<open>limit\<close>, in descending
  order of the key (\<open>published_at\<close>, or \<^verbatim>\<open>datetime.min\<close> where it is missing), entries
  of equal key in their input order.
\<close>

theorem take_latest_sorted_bounded:
  assumes cmp: "\<forall>a\<in>set entries. \<forall>b\<in>set entries. comparable (latest_key a) (latest_key b)"
    and lim: "0 \<le> limit"
  shows "\<exists>r. take_latest entries limit = Inr r
           \<and> int (length r) \<le> limit
           \<and> length r = min (nat limit) (length entries)
           \<and> mset r \<subseteq># mset entries
           \<and> sorted_wrt (\<lambda>a b. instant (latest_key b) \<le> instant (latest_key a)) r
           \<and> (\<forall>v. prefix (filter (\<lambda>e. instant (latest_key e) = v) r)
                         (filter (\<lambda>e. instant (latest_key e) = v) entries))"
proof -
  let ?k = "\<lambda>e. instant (latest_key e)"
  let ?s = "sorted_reverse ?k entries"
  let ?r = "take (nat limit) ?s"
  from cmp have "list_all (\<lambda>a. list_all (\<lambda>b. comparable (latest_key a) (latest_key b)) entries) entries"
    by (simp add: list_all_iff)
  with lim have r: "take_latest entries limit = Inr ?r"
    by (simp add: take_latest_def slice_to_def)
  have l: "length ?r = min (nat limit) (length entries)"
    by (simp add: length_sorted_reverse min.commute)
  with lim have b: "int (length ?r) \<le> limit" by simp
  have m: "mset ?r \<subseteq># mset entries"
    using mset_take_subseteq [of "nat limit" ?s] by (simp add: mset_sorted_reverse)
  have d: "sorted_wrt (\<lambda>a b. ?k b \<le> ?k a) ?r"
    using sorted_reverse_descending [of ?k entries] by (rule sorted_wrt_take)
  have s: "\<forall>v. prefix (filter (\<lambda>e. ?k e = v) ?r) (filter (\<lambda>e. ?k e = v) entries)"
  proof
    fix v
    show "prefix (filter (\<lambda>e. ?k e = v) ?r) (filter (\<lambda>e. ?k e = v) entries)"
      using filter_take_prefix [of "\<lambda>e. ?k e = v" "nat limit" ?s]
      by (simp only: sorted_reverse_stable)
  qed
  from r b l m d s show ?thesis by blast
qed

theorem take_latest_sorted_bounded_witness:
  "take_latest
     [ex_article (Some ''a'') None (Some \<lparr>wall = 10, tzinfo = Some 0\<rparr>),
      ex_article (Some ''b'') None (Some \<lparr>wall = 20, tzinfo = Some 0\<rparr>),
      ex_article (Some ''c'') None (Some \<lparr>wall = 30, tzinfo = Some 10\<rparr>)] 2
     = Inr [ex_article (Some ''b'') None (Some \<lparr>wall = 20, tzinfo = Some 0\<rparr>),
            ex_article (Some ''c'') None (Some \<lparr>wall = 30, tzinfo = Some 10\<rparr>)]
   \<and> int (length [ex_article (Some ''b'') None (Some \<lparr>wall = 20, tzinfo = Some 0\<rparr>),
                   ex_article (Some ''c'') None (Some \<lparr>wall = 30, tzinfo = Some 10\<rparr>)]) \<le> 2
   \<and> sorted_wrt (\<lambda>a b. instant (latest_key b) \<le> instant (latest_key a))
        [ex_article (Some ''b'') None (Some \<lparr>wall = 20, tzinfo = Some 0\<rparr>),
         ex_article (Some ''c'') None (Some \<lparr>wall = 30, tzinfo = Some 10\<rparr>)]"
proof -
  let ?es = "[ex_article (Some ''a'') None (Some \<lparr>wall = 10, tzinfo = Some 0\<rparr>),
              ex_article (Some ''b'') None (Some \<lparr>wall = 20, tzinfo = Some 0\<rparr>),
              ex_article (Some ''c'') None (Some \<lparr>wall = 30, tzinfo = Some 10\<rparr>)]"
  let ?r = "[ex_article (Some ''b'') None (Some \<lparr>wall = 20, tzinfo = Some 0\<rparr>),
             ex_article (Some ''c'') None (Some \<lparr>wall = 30, tzinfo = Some 10\<rparr>)]"
  have c: "\<forall>a\<in>set ?es. \<forall>b\<in>set ?es. comparable (latest_key a) (latest_key b)"
    by (simp add: comparable_def latest_key_def ex_article_def)
  have l: "(0::int) \<le> 2" by simp
  have e: "take_latest ?es 2 = Inr ?r"
    by (simp add: take_latest_def slice_to_def sorted_reverse_def latest_key_def
        comparable_def instant_def ex_article_def)
  from take_latest_sorted_bounded [OF c l]
  obtain r where r: "take_latest ?es 2 = Inr r" "int (length r) \<le> 2"
      "sorted_wrt (\<lambda>a b. instant (latest_key b) \<le> instant (latest_key a)) r"
    by blast
  from r(1) e have "r = ?r" by simp
  with r e show ?thesis by (intro conjI) simp_all
qed

section \<open>Properties of \<^verbatim>\<open>fetch_articles\<close>\<close>

lemmas fetch_eval =
  fetch_articles_def ex_libs_def ex_env_def parse_articles_payload_def
  strip_def isspace_def json_get_def py_iter_def bind_exn_def dict_get_def
  dict_get_default_def text_field_def deduplicate_articles_def unique_key_def
  take_latest_def slice_to_def sorted_reverse_def latest_key_def comparable_def
  ensure_aware_def instant_def brace_candidate_def str_rfind_def

text \<open>
  Claim C4. Every article of \<^verbatim>\<open>fetch_articles\<close> should carry a timezone-aware
  \<open>published_at\<close>, the default \<^verbatim>\<open>now\<close> included. The code takes the default from
  \<^verbatim>\<open>datetime.utcnow()\<close>, a naive value, and does not pass it through
  \<^verbatim>\<open>ensure_aware\<close> as it does the parsed values: for a response with one undated item
  the article's \<open>published_at\<close> has no \<open>tzinfo\<close>, and for a response with a dated and an
  undated item the sort of \<^verbatim>\<open>take_latest\<close> compares an aware with a naive value and
  \<^verbatim>\<open>fetch_articles\<close> raises \<^verbatim>\<open>TypeError\<close>.
\<close>

theorem fetch_articles_default_is_naive:
  \<open>fetch_articles
     (ex_libs [(''{"articles": [{"title": "Spill", "url": "http://a"}]}'',
        JObj [(''articles'',
          JArr [JObj [(''title'', JStr ''Spill''), (''url'', JStr ''http://a'')]])])])
     (ex_env True (OutputText ''{"articles": [{"title": "Spill", "url": "http://a"}]}'')
        NoOutputText)
     ''Acme'' 50
   = Inr [\<lparr>title = Some ''Spill'', description = Some [], url = Some ''http://a'',
           source = None, published_at = Some \<lparr>wall = 1000, tzinfo = None\<rparr>,
           source_type = ''openai_web_search''\<rparr>]
   \<and> fetch_articles
     (ex_libs [(''{"articles": [{"url": "http://a", "published_at": "2024-01-01"}, {"url": "http://b"}]}'',
        JObj [(''articles'',
          JArr [JObj [(''url'', JStr ''http://a''), (''published_at'', JStr ''2024-01-01'')],
                JObj [(''url'', JStr ''http://b'')]])])])
     (ex_env True
        (OutputText ''{"articles": [{"url": "http://a", "published_at": "2024-01-01"}, {"url": "http://b"}]}'')
        NoOutputText)
     ''Acme'' 50
   = Inl TypeError\<close>
  by (simp add: fetch_eval)

text \<open>The three strategies, when every parse they attempt raises \<^verbatim>\<open>JSONDecodeError\<close>.\<close>

lemma first_parsed_fails:
  "\<forall>b\<in>set blocks. json_loads L b = Inl JSONDecodeError \<Longrightarrow> first_parsed L blocks = Inr None"
  by (induction blocks) auto

lemma parse_articles_payload_fails:
  assumes "json_loads L (strip t) = Inl JSONDecodeError"
    and "\<forall>b\<in>set (findall_fenced L (strip t)). json_loads L b = Inl JSONDecodeError"
    and "\<forall>c. brace_candidate (strip t) = Some c \<longrightarrow> json_loads L c = Inl JSONDecodeError"
  shows "parse_articles_payload L t = Inl JSONDecodeError"
  using assms first_parsed_fails [OF assms(2)]
  by (simp add: parse_articles_payload_def split: option.splits)

lemma parse_articles_payload_raises:
  "json_loads L (strip t) = Inl e \<Longrightarrow> e \<noteq> JSONDecodeError \<Longrightarrow>
   parse_articles_payload L t = Inl e"
  by (simp add: parse_articles_payload_def)

text \<open>
  Claim C3, as stated, fails where a parse raises something else than
  \<^verbatim>\<open>JSONDecodeError\<close>: on a response of 2000 opening brackets \<^verbatim>\<open>json.loads\<close> raises
  \<^verbatim>\<open>RecursionError\<close>, no strategy gives JSON, and \<^verbatim>\<open>fetch_articles\<close> raises that error
  to its caller.
\<close>

theorem fetch_articles_counterexample:
  "fetch_articles (ex_libs_raising (replicate 2000 CHR ''['') RecursionError)
     (ex_env True (OutputText (replicate 2000 CHR ''['')) NoOutputText) ''Acme'' 50
   = Inl RecursionError"
proof -
  have "trimmed (replicate 2000 CHR ''['')"
    by (simp add: trimmed_def isspace_def)
  then have s: "strip (replicate 2000 CHR ''['') = replicate 2000 CHR ''[''"
    by (rule strip_fixed)
  have "parse_articles_payload (ex_libs_raising (replicate 2000 CHR ''['') RecursionError)
          (replicate 2000 CHR ''['') = Inl RecursionError"
    by (rule parse_articles_payload_raises) (simp_all add: s ex_libs_raising_def)
  then show ?thesis
    by (simp add: fetch_articles_def ex_env_def)
qed

text \<open>
  Claim C3, amended. If the research oracle is not configured, or the oracle call fails
  at transport level, or every parse attempted by the three extraction strategies (the
  whole text, the fenced blocks, the slice from the first \<^verbatim>\<open>{\<close> to the last \<^verbatim>\<open>}\<close>) raises
  \<^verbatim>\<open>JSONDecodeError\<close>, then \<^verbatim>\<open>fetch_articles\<close> returns the empty list and raises nothing.
  Where the parse of the whole text raises another exception, \<^verbatim>\<open>fetch_articles\<close> raises
  it.
\<close>

theorem fetch_articles_soft_failure:
  "(\<not> openai_available E
     \<or> search_response E = TransportFailure
     \<or> (search_response E = OutputText t
          \<and> json_loads L (strip t) = Inl JSONDecodeError
          \<and> (\<forall>b\<in>set (findall_fenced L (strip t)). json_loads L b = Inl JSONDecodeError)
          \<and> (\<forall>c. brace_candidate (strip t) = Some c \<longrightarrow> json_loads L c = Inl JSONDecodeError))
     \<longrightarrow> fetch_articles L E company limit = Inr [])
   \<and> (openai_available E \<and> search_response E = OutputText t
        \<and> json_loads L (strip t) = Inl e \<and> e \<noteq> JSONDecodeError
     \<longrightarrow> fetch_articles L E company limit = Inl e)"
proof (intro conjI impI)
  assume "\<not> openai_available E
     \<or> search_response E = TransportFailure
     \<or> (search_response E = OutputText t
          \<and> json_loads L (strip t) = Inl JSONDecodeError
          \<and> (\<forall>b\<in>set (findall_fenced L (strip t)). json_loads L b = Inl JSONDecodeError)
          \<and> (\<forall>c. brace_candidate (strip t) = Some c \<longrightarrow> json_loads L c = Inl JSONDecodeError))"
  then show "fetch_articles L E company limit = Inr []"
    using parse_articles_payload_fails [of L t]
    by (auto simp: fetch_articles_def)
next
  assume "openai_available E \<and> search_response E = OutputText t
        \<and> json_loads L (strip t) = Inl e \<and> e \<noteq> JSONDecodeError"
  then show "fetch_articles L E company limit = Inl e"
    using parse_articles_payload_raises [of L t e]
    by (simp add: fetch_articles_def)
qed

theorem fetch_articles_soft_failure_witness:
  \<open>fetch_articles (ex_libs []) (ex_env False (OutputText ''{}'') NoOutputText) ''Acme'' 50 = Inr []
   \<and> fetch_articles (ex_libs []) (ex_env True TransportFailure NoOutputText) ''Acme'' 50 = Inr []
   \<and> fetch_articles (ex_libs [])
        (ex_env True (OutputText ''Sorry, {"articles": [ nothing found'') NoOutputText)
        ''Acme'' 50 = Inr []
   \<and> fetch_articles (ex_libs [])
        (ex_env True (OutputText '' {"articles": [tbd]} '') NoOutputText) ''Acme'' 50 = Inr []
   \<and> fetch_articles (ex_libs_raising ''12345'' ValueError)
        (ex_env True (OutputText '' 12345 '') NoOutputText) ''Acme'' 50 = Inl ValueError\<close>
proof -
  have 1: "\<not> openai_available (ex_env False (OutputText ''{}'') NoOutputText)"
    by (simp add: ex_env_def)
  have 2: "search_response (ex_env True TransportFailure NoOutputText) = TransportFailure"
    by (simp add: ex_env_def)
  have 3: \<open>search_response
        (ex_env True (OutputText ''Sorry, {"articles": [ nothing found'') NoOutputText)
       = OutputText ''Sorry, {"articles": [ nothing found''
     \<and> json_loads (ex_libs []) (strip ''Sorry, {"articles": [ nothing found'')
         = Inl JSONDecodeError
     \<and> (\<forall>b\<in>set (findall_fenced (ex_libs []) (strip ''Sorry, {"articles": [ nothing found'')).
           json_loads (ex_libs []) b = Inl JSONDecodeError)
     \<and> (\<forall>c. brace_candidate (strip ''Sorry, {"articles": [ nothing found'') = Some c
           \<longrightarrow> json_loads (ex_libs []) c = Inl JSONDecodeError)\<close>
    by (simp add: ex_env_def ex_libs_def)
  have 4: \<open>search_response
        (ex_env True (OutputText '' {"articles": [tbd]} '') NoOutputText)
       = OutputText '' {"articles": [tbd]} ''
     \<and> json_loads (ex_libs []) (strip '' {"articles": [tbd]} '') = Inl JSONDecodeError
     \<and> (\<forall>b\<in>set (findall_fenced (ex_libs []) (strip '' {"articles": [tbd]} '')).
           json_loads (ex_libs []) b = Inl JSONDecodeError)
     \<and> (\<forall>c. brace_candidate (strip '' {"articles": [tbd]} '') = Some c
           \<longrightarrow> json_loads (ex_libs []) c = Inl JSONDecodeError)\<close>
    by (simp add: ex_env_def ex_libs_def)
  have 5: "openai_available (ex_env True (OutputText '' 12345 '') NoOutputText)
     \<and> search_response (ex_env True (OutputText '' 12345 '') NoOutputText)
         = OutputText '' 12345 ''
     \<and> json_loads (ex_libs_raising ''12345'' ValueError) (strip '' 12345 '') = Inl ValueError
     \<and> ValueError \<noteq> JSONDecodeError"
    by (simp add: ex_env_def ex_libs_raising_def strip_def isspace_def)
  note T = fetch_articles_soft_failure
  from T [THEN conjunct1, THEN mp, OF disjI1, OF 1]
  have a: "fetch_articles (ex_libs []) (ex_env False (OutputText ''{}'') NoOutputText)
             ''Acme'' 50 = Inr []" .
  from T [THEN conjunct1, THEN mp, OF disjI2, OF disjI1, OF 2]
  have b: "fetch_articles (ex_libs []) (ex_env True TransportFailure NoOutputText)
             ''Acme'' 50 = Inr []" .
  from T [THEN conjunct1, THEN mp, OF disjI2, OF disjI2, OF 3]
  have c: \<open>fetch_articles (ex_libs [])
        (ex_env True (OutputText ''Sorry, {"articles": [ nothing found'') NoOutputText)
        ''Acme'' 50 = Inr []\<close> .
  from T [THEN conjunct1, THEN mp, OF disjI2, OF disjI2, OF 4]
  have d: \<open>fetch_articles (ex_libs [])
        (ex_env True (OutputText '' {"articles": [tbd]} '') NoOutputText) ''Acme'' 50 = Inr []\<close> .
  from T [THEN conjunct2, THEN mp, OF 5]
  have e: "fetch_articles (ex_libs_raising ''12345'' ValueError)
        (ex_env True (OutputText '' 12345 '') NoOutputText) ''Acme'' 50 = Inl ValueError" .
  from a b c d e show ?thesis by (intro conjI)
qed


section \<open>Properties of \<^verbatim>\<open>get_recent_searches\<close>\<close>

text \<open>
  Claim C9. \<^verbatim>\<open>get_recent_searches\<close> should return at most \<open>limit\<close> entries for every
  non-negative \<open>limit\<close>. The loop tests the length after it has appended, so with
  \<open>limit = 0\<close> and a user who has searched it returns one entry.
\<close>

theorem get_recent_searches_limit_zero:
  "get_recent_searches
     [\<lparr>row_user_id = 1, row_company_name = ''Adani Power'', row_searched_at = 5\<rparr>] 1 0
   = [(''Adani Power'', 5)]"
  by (simp add: get_recent_searches_def query_recent_def sorted_reverse_def)

text \<open>
  From \<open>limit = 1\<close> on the claim holds: at most \<open>limit\<close> entries, no two names equal up to
  case, most recent first.
\<close>

lemma recent_loop_length:
  "int (length results) < limit \<Longrightarrow> int (length (recent_loop seen results qs limit)) \<le> limit"
proof (induction qs arbitrary: seen results)
  case Nil
  then show ?case by simp
next
  case (Cons e qs)
  show ?case
  proof (cases "lower (row_company_name e) \<in> seen")
    case True
    with Cons show ?thesis by simp
  next
    case False
    let ?r = "results @ [(row_company_name e, row_searched_at e)]"
    show ?thesis
    proof (cases "limit \<le> int (length ?r)")
      case True
      with False Cons.prems show ?thesis by (simp add: Let_def)
    next
      case stop: False
      then have "int (length ?r) < limit" by simp
      from Cons.IH [OF this] False stop show ?thesis by (simp add: Let_def)
    qed
  qed
qed

lemma recent_loop_distinct:
  "distinct (map (\<lambda>r. lower (fst r)) results) \<Longrightarrow>
   seen = set (map (\<lambda>r. lower (fst r)) results) \<Longrightarrow>
   distinct (map (\<lambda>r. lower (fst r)) (recent_loop seen results qs limit))"
proof (induction qs arbitrary: seen results)
  case Nil
  then show ?case by simp
next
  case (Cons e qs)
  show ?case
  proof (cases "lower (row_company_name e) \<in> seen")
    case True
    with Cons show ?thesis by simp
  next
    case False
    let ?r = "results @ [(row_company_name e, row_searched_at e)]"
    from False Cons.prems have d: "distinct (map (\<lambda>r. lower (fst r)) ?r)" by auto
    have s: "insert (lower (row_company_name e)) seen = set (map (\<lambda>r. lower (fst r)) ?r)"
      using Cons.prems(2) by auto
    from Cons.IH [OF d s] d False show ?thesis by (simp add: Let_def)
  qed
qed

lemma recent_loop_sorted:
  "sorted_wrt (\<lambda>a b. b \<le> a) (map snd results @ map row_searched_at qs) \<Longrightarrow>
   sorted_wrt (\<lambda>a b. b \<le> a) (map snd (recent_loop seen results qs limit))"
proof (induction qs arbitrary: seen results)
  case Nil
  then show ?case by simp
next
  case (Cons e qs)
  let ?r = "results @ [(row_company_name e, row_searched_at e)]"
  from Cons.prems have 1: "sorted_wrt (\<lambda>a b. b \<le> a) (map snd results @ map row_searched_at qs)"
    by (auto simp: sorted_wrt_append)
  from Cons.prems have 2: "sorted_wrt (\<lambda>a b. b \<le> a) (map snd ?r @ map row_searched_at qs)"
    by simp
  from Cons.prems have 3: "sorted_wrt (\<lambda>a b. b \<le> a) (map snd ?r)"
    by (auto simp: sorted_wrt_append)
  from Cons.IH [OF 1] Cons.IH [OF 2] 3 show ?case by (simp add: Let_def)
qed

lemma get_recent_searches_positive_limit:
  assumes "1 \<le> limit"
  shows "int (length (get_recent_searches table uid limit)) \<le> limit
         \<and> distinct (map (\<lambda>r. lower (fst r)) (get_recent_searches table uid limit))
         \<and> sorted_wrt (\<lambda>a b. snd b \<le> snd a) (get_recent_searches table uid limit)"
proof (cases "uid = 0")
  case True
  with assms show ?thesis by (simp add: get_recent_searches_def)
next
  case False
  let ?qs = "query_recent table uid"
  from assms have l: "int (length (recent_loop {} [] ?qs limit)) \<le> limit"
    by (intro recent_loop_length) simp
  have d: "distinct (map (\<lambda>r. lower (fst r)) (recent_loop {} [] ?qs limit))"
    by (rule recent_loop_distinct) simp_all
  have "sorted_wrt (\<lambda>a b. row_searched_at b \<le> row_searched_at a) ?qs"
    unfolding query_recent_def by (rule sorted_reverse_descending)
  then have "sorted_wrt (\<lambda>a b. b \<le> a) (map snd [] @ map row_searched_at ?qs)"
    by (simp add: sorted_wrt_map)
  then have "sorted_wrt (\<lambda>a b. b \<le> a) (map snd (recent_loop {} [] ?qs limit))"
    by (rule recent_loop_sorted)
  then have s: "sorted_wrt (\<lambda>a b. snd b \<le> snd a) (recent_loop {} [] ?qs limit)"
    by (simp add: sorted_wrt_map)
  from False l d s show ?thesis by (simp add: get_recent_searches_def)
qed

section \<open>Properties of the scoring engine\<close>

text \<open>
  Some values of the float operations, as CPython computes them: the doubles \<^verbatim>\<open>0.1\<close>
  and \<^verbatim>\<open>0.1 + 0.2\<close>, \<^verbatim>\<open>round(2.675, 2)\<close>, which is the double \<^verbatim>\<open>2.67\<close>, and
  \<^verbatim>\<open>round(0.75 / 10, 2)\<close>, which is the double \<^verbatim>\<open>0.07\<close>.
\<close>

lemma float_examples:
  "fl (1 / 10) = 3602879701896397 / 36028797018963968"
  "float_add (fl (1 / 10)) (fl (2 / 10)) = 1351079888211149 / 4503599627370496"
  "round2 (fl (2675 / 1000)) = 1503076375634903 / 562949953421312"
  "round2 (float_div (3 / 4) 10) = 1261007895663739 / 18014398509481984"
  "fl (7 / 100) = 1261007895663739 / 18014398509481984"
  by code_simp+

lemma big_bound: "(100::int) < 2 ^ 1024 - 2 ^ 970"
  by simp



lemma weights: "sum_list (map snd WEIGHTS) = 10"
  "dict_item WEIGHTS ''environment'' = Inr 4"
  "dict_item WEIGHTS ''social'' = Inr 3"
  "dict_item WEIGHTS ''governance'' = Inr 3"
  by (simp_all add: WEIGHTS_def dict_item_def)



text \<open>The values whose \<open>overall\<close> is missing or invalid in that sense.\<close>

lemma to_float_none_iff:
  "to_float L v = Inr None \<longleftrightarrow>
     v = JNull \<or> (\<exists>x. v = JStr x \<and> float_of_str L x = None)
     \<or> (\<exists>xs. v = JArr xs) \<or> (\<exists>kvs. v = JObj kvs)"
  by (cases v) (auto simp: to_float_def)



subsection \<open>The heuristic path\<close>

text \<open>The substring test is the contiguous-sublist relation of the library.\<close>

lemma contains_iff_sublist: "contains needle s \<longleftrightarrow> sublist needle s"
  by (induction s) (auto simp: sublist_Cons_right)

lemma detect_esg_aspects_cases:
  "detect_esg_aspects (article_text a) ESG_KEYWORDS =
     (if hit a ENVIRONMENTAL_KEYWORDS then [''environment''] else [])
     @ (if hit a SOCIAL_KEYWORDS then [''social''] else [])
     @ (if hit a GOVERNANCE_KEYWORDS then [''governance''] else [])"
  by (simp add: detect_esg_aspects_def ESG_KEYWORDS_def hit_def)

text \<open>
  On the scores 0 and 70 the float operations are exact: the products, the sums and the
  quotients by 10 are integers.
\<close>

lemma coerce_score_0_70:
  "coerce_score L (JInt 0) dflt = Inr 0" "coerce_score L (JInt 70) dflt = Inr 70"
proof -
  have "fl 70 = 70" by code_simp
  then show "coerce_score L (JInt 70) dflt = Inr 70"
    by (simp add: coerce_score_def bind_exn_def to_float_def)
  show "coerce_score L (JInt 0) dflt = Inr 0"
    by (simp add: coerce_score_def bind_exn_def to_float_def fl_def)
qed

lemma weighted_0_70:
  assumes "e \<in> {0, 70}" "s \<in> {0, 70}" "g \<in> {0, 70}"
  shows "float_div (float_add (float_add (float_mul 4 e) (float_mul 3 s)) (float_mul 3 g)) 10
         = (4 * e + 3 * s + 3 * g) / 10"
proof -
  have "float_div (float_add (float_add (float_mul 4 0) (float_mul 3 0)) (float_mul 3 0)) 10
          = (4 * 0 + 3 * 0 + 3 * 0) / 10"
       "float_div (float_add (float_add (float_mul 4 0) (float_mul 3 0)) (float_mul 3 70)) 10
          = (4 * 0 + 3 * 0 + 3 * 70) / 10"
       "float_div (float_add (float_add (float_mul 4 0) (float_mul 3 70)) (float_mul 3 0)) 10
          = (4 * 0 + 3 * 70 + 3 * 0) / 10"
       "float_div (float_add (float_add (float_mul 4 0) (float_mul 3 70)) (float_mul 3 70)) 10
          = (4 * 0 + 3 * 70 + 3 * 70) / 10"
       "float_div (float_add (float_add (float_mul 4 70) (float_mul 3 0)) (float_mul 3 0)) 10
          = (4 * 70 + 3 * 0 + 3 * 0) / 10"
       "float_div (float_add (float_add (float_mul 4 70) (float_mul 3 0)) (float_mul 3 70)) 10
          = (4 * 70 + 3 * 0 + 3 * 70) / 10"
       "float_div (float_add (float_add (float_mul 4 70) (float_mul 3 70)) (float_mul 3 0)) 10
          = (4 * 70 + 3 * 70 + 3 * 0) / 10"
       "float_div (float_add (float_add (float_mul 4 70) (float_mul 3 70)) (float_mul 3 70)) 10
          = (4 * 70 + 3 * 70 + 3 * 70) / 10"
    by code_simp+
  with assms show ?thesis by blast
qed

lemma calculate_weighted_score_ints:
  assumes "e \<in> {0, 70}" "s \<in> {0, 70}" "g \<in> {0, 70}"
  shows "calculate_weighted_score L
           [(''environment'', JInt e), (''social'', JInt s), (''governance'', JInt g)]
         = Inr (round2 ((4 * of_int e + 3 * of_int s + 3 * of_int g) / 10))"
proof -
  have c: "coerce_score L (JInt e) 0 = Inr (of_int e)" "coerce_score L (JInt s) 0 = Inr (of_int s)"
    "coerce_score L (JInt g) 0 = Inr (of_int g)"
    using assms coerce_score_0_70 [of L 0] by auto
  have m: "(of_int e :: rat) \<in> {0, 70}" "(of_int s :: rat) \<in> {0, 70}"
    "(of_int g :: rat) \<in> {0, 70}"
    using assms by auto
  show ?thesis
    by (simp add: calculate_weighted_score_def weights bind_exn_def dict_get_def
        dict_get_default_def c weighted_0_70 [OF m])
qed

lemma heuristic_item_eq:
  "heuristic_item L a =
     Inr \<lparr>item_title = of_text (title a),
          item_description = of_text (description a),
          date = (case published_at a of Some dt \<Rightarrow> JStr (isoformat L dt) | None \<Rightarrow> JNull),
          display_date = format_display_date L
            (case published_at a of Some dt \<Rightarrow> JStr (isoformat L dt) | None \<Rightarrow> JNull),
          item_source = of_text (source a),
          item_url = of_text (url a),
          scores = \<lparr>environment = of_int (axis a ENVIRONMENTAL_KEYWORDS),
                     social = of_int (axis a SOCIAL_KEYWORDS),
                     governance = of_int (axis a GOVERNANCE_KEYWORDS),
                     overall = round2 ((4 * of_int (axis a ENVIRONMENTAL_KEYWORDS)
                                        + 3 * of_int (axis a SOCIAL_KEYWORDS)
                                        + 3 * of_int (axis a GOVERNANCE_KEYWORDS)) / 10)\<rparr>\<rparr>"
proof -
  let ?e = "axis a ENVIRONMENTAL_KEYWORDS" and ?s = "axis a SOCIAL_KEYWORDS"
    and ?g = "axis a GOVERNANCE_KEYWORDS"
  let ?sc = "foldl (\<lambda>d aspect. dict_set d aspect 70)
               [(''environment'', 0 :: int), (''social'', 0), (''governance'', 0)]
               (detect_esg_aspects (article_text a) ESG_KEYWORDS)"
  have sc: "?sc = [(''environment'', ?e), (''social'', ?s), (''governance'', ?g)]"
    by (simp add: detect_esg_aspects_cases axis_def)
  have r: "?e \<in> {0, 70}" "?s \<in> {0, 70}" "?g \<in> {0, 70}"
    by (simp_all add: axis_def)
  have w: "calculate_weighted_score L
             [(''environment'', JInt ?e), (''social'', JInt ?s), (''governance'', JInt ?g)]
           = Inr (round2 ((4 * of_int ?e + 3 * of_int ?s + 3 * of_int ?g) / 10))"
    using r by (rule calculate_weighted_score_ints)
  show ?thesis
    unfolding heuristic_item_def Let_def sc
    by (simp add: w bind_exn_def dict_item_def)
qed

lemma contains_imp_hit: "k \<in> set keywords \<Longrightarrow> contains k (lower (article_text a)) \<Longrightarrow> hit a keywords"
  by (auto simp: hit_def list_ex_iff)

lemma round2_values: "round2 28 = 28" "round2 49 = 49"
  by code_simp+

text \<open>
  Claim C8, amended. Under the heuristic path an article whose lowered text contains
  \<^verbatim>\<open>oil spill\<close> gets \<open>environment = 70\<close>; \<open>social\<close> and \<open>governance\<close> are 70 where a keyword
  of that aspect occurs in the text and 0 otherwise, and \<open>overall\<close> is the weighted mean.
  With no social and no governance keyword in the text the scores are 70, 0, 0 and 28.
\<close>

theorem heuristic_item_oil_spill:
  assumes "contains ''oil spill'' (lower (article_text a))"
  shows "\<exists>it. heuristic_item L a = Inr it
           \<and> environment (scores it) = 70
           \<and> social (scores it) = (if hit a SOCIAL_KEYWORDS then 70 else 0)
           \<and> governance (scores it) = (if hit a GOVERNANCE_KEYWORDS then 70 else 0)
           \<and> overall (scores it)
               = round2 ((4 * 70 + 3 * social (scores it) + 3 * governance (scores it)) / 10)
           \<and> (\<not> hit a SOCIAL_KEYWORDS \<and> \<not> hit a GOVERNANCE_KEYWORDS \<longrightarrow>
                scores it = \<lparr>environment = 70, social = 0, governance = 0, overall = 28\<rparr>)"
proof -
  have "''oil spill'' \<in> set ENVIRONMENTAL_KEYWORDS"
    by (simp add: ENVIRONMENTAL_KEYWORDS_def)
  with assms have e: "axis a ENVIRONMENTAL_KEYWORDS = 70"
    using contains_imp_hit by (simp add: axis_def)
  show ?thesis
    unfolding heuristic_item_eq e using round2_values by (simp add: axis_def)
qed

text \<open>
  Claim C8, as stated, fails for an article that also holds a keyword of another aspect:
  the text \<^verbatim>\<open>Oil spill protest\<close> contains \<^verbatim>\<open>oil spill\<close> and the social keyword
  \<^verbatim>\<open>protest\<close>, and scores 70, 70, 0 and 49.
\<close>

theorem heuristic_item_counterexample:
  "contains ''oil spill'' (lower (article_text (ex_article (Some ''Oil spill protest'') None None)))
   \<and> heuristic_item (ex_libs []) (ex_article (Some ''Oil spill protest'') None None)
     = Inr \<lparr>item_title = JStr ''Oil spill protest'', item_description = JStr [], date = JNull,
            display_date = JStr ''N/A'', item_source = JNull, item_url = JNull,
            scores = \<lparr>environment = 70, social = 70, governance = 0, overall = 49\<rparr>\<rparr>"
proof -
  let ?a = "ex_article (Some ''Oil spill protest'') None None"
  have t: "lower (article_text ?a) = ''oil spill protest''"
    by code_simp
  have c: "contains ''oil spill'' ''oil spill protest''" by simp
  have e: "hit ?a ENVIRONMENTAL_KEYWORDS"
    unfolding hit_def t by code_simp
  have s: "hit ?a SOCIAL_KEYWORDS"
    unfolding hit_def t by code_simp
  have g: "\<not> hit ?a GOVERNANCE_KEYWORDS"
    unfolding hit_def t by code_simp
  show ?thesis
    unfolding heuristic_item_eq t using c e s g round2_values
    by (simp add: axis_def ex_article_def of_text_def format_display_date_def)
qed

theorem heuristic_item_oil_spill_witness:
  "heuristic_item (ex_libs []) (ex_article (Some ''Big oil'') None None\<lparr>description := Some ''Spill at sea''\<rparr>)
   = Inr \<lparr>item_title = JStr ''Big oil'', item_description = JStr ''Spill at sea'', date = JNull,
          display_date = JStr ''N/A'', item_source = JNull, item_url = JNull,
          scores = \<lparr>environment = 70, social = 0, governance = 0, overall = 28\<rparr>\<rparr>"
proof -
  let ?a = "ex_article (Some ''Big oil'') None None\<lparr>description := Some ''Spill at sea''\<rparr>"
  have t: "lower (article_text ?a) = ''big oil spill at sea''"
    by code_simp
  have c: "contains ''oil spill'' (lower (article_text ?a))"
    unfolding t by simp
  have s: "\<not> hit ?a SOCIAL_KEYWORDS"
    unfolding hit_def t by code_simp
  have g: "\<not> hit ?a GOVERNANCE_KEYWORDS"
    unfolding hit_def t by code_simp
  from heuristic_item_oil_spill [OF c, of "ex_libs []"] s g
  obtain it where it: "heuristic_item (ex_libs []) ?a = Inr it"
    "scores it = \<lparr>environment = 70, social = 0, governance = 0, overall = 28\<rparr>"
    by blast
  have "it = \<lparr>item_title = JStr ''Big oil'', item_description = JStr ''Spill at sea'',
               date = JNull, display_date = JStr ''N/A'', item_source = JNull,
               item_url = JNull, scores = scores it\<rparr>"
    using it(1) unfolding heuristic_item_eq
    by (auto simp: ex_article_def of_text_def format_display_date_def)
  with it show ?thesis by simp
qed


subsection \<open>Fallback from the oracle path\<close>

text \<open>What the oracle path does with the text of the response.\<close>

lemma analyse_with_openai_parse_failure:
  "execute_openai_prompt E = Inr t \<Longrightarrow> json_loads L t = Inl JSONDecodeError \<Longrightarrow>
   analyse_with_openai L E company articles = Inl ESGServiceError"
  by (simp add: analyse_with_openai_def bind_exn_def)

lemma analyse_with_openai_parse_raises:
  "execute_openai_prompt E = Inr t \<Longrightarrow> json_loads L t = Inl e \<Longrightarrow> e \<noteq> JSONDecodeError \<Longrightarrow>
   analyse_with_openai L E company articles = Inl e"
  by (simp add: analyse_with_openai_def bind_exn_def)

lemma analyse_with_openai_no_text:
  "scoring_response E = TransportFailure \<or> scoring_response E = NoOutputText \<Longrightarrow>
   analyse_with_openai L E company articles = Inl ESGServiceError"
  by (auto simp: analyse_with_openai_def execute_openai_prompt_def bind_exn_def)

text \<open>
  Claim C1, as stated, fails where the oracle path raises another exception than
  \<^verbatim>\<open>ESGServiceError\<close>, which \<^verbatim>\<open>_analyse_articles\<close> does not catch, so no result is
  returned. On the response \<^verbatim>\<open>[]\<close>, valid JSON that is no object, the oracle path
  raises \<^verbatim>\<open>AttributeError\<close> at \<^verbatim>\<open>parsed.get\<close>. On a response of 2000 opening brackets
  the parse itself fails, with a \<^verbatim>\<open>RecursionError\<close> that the \<^verbatim>\<open>except\<close> clause of the
  oracle path does not turn into an \<^verbatim>\<open>ESGServiceError\<close>.
\<close>

theorem analyse_articles_counterexample:
  "[ex_article (Some ''Oil spill'') None None] \<noteq> []
   \<and> analyse_articles (ex_libs [(''[]'', JArr [])])
       (ex_env True NoOutputText (OutputText ''[]'')) ''Acme''
       [ex_article (Some ''Oil spill'') None None]
     = Inl AttributeError
   \<and> analyse_articles (ex_libs_raising (replicate 2000 CHR ''['') RecursionError)
       (ex_env True NoOutputText (OutputText (replicate 2000 CHR ''[''))) ''Acme''
       [ex_article (Some ''Oil spill'') None None]
     = Inl RecursionError"
  by (simp add: analyse_articles_def analyse_with_openai_def execute_openai_prompt_def
      ex_env_def ex_libs_def ex_libs_raising_def bind_exn_def json_get_def)

text \<open>
  Claim C1, amended. For a non-empty article list and a configured oracle: a response
  on which \<^verbatim>\<open>json.loads\<close> raises \<^verbatim>\<open>JSONDecodeError\<close> makes the oracle path raise
  \<^verbatim>\<open>ESGServiceError\<close>, and \<^verbatim>\<open>_analyse_articles\<close> then gives the outcome of the heuristic
  path; a response on which \<^verbatim>\<open>json.loads\<close> raises another exception makes the oracle
  path, and \<^verbatim>\<open>_analyse_articles\<close>, raise that exception. \<^verbatim>\<open>_analyse_articles\<close> catches
  exactly \<^verbatim>\<open>ESGServiceError\<close>: its outcome is that of the heuristic path where the oracle
  is not configured or the oracle path raises \<^verbatim>\<open>ESGServiceError\<close>, and in every other
  case it is the outcome of the oracle path, its result or the exception it raises.
  The outcome is never a mixture of the two.
\<close>

theorem analyse_articles_fallback:
  assumes "articles \<noteq> []"
  shows "(openai_available E \<and> scoring_response E = OutputText t
            \<and> json_loads L t = Inl JSONDecodeError \<longrightarrow>
            analyse_with_openai L E company articles = Inl ESGServiceError
            \<and> analyse_articles L E company articles = analyse_with_heuristics L articles)
       \<and> (openai_available E \<and> scoring_response E = OutputText t
            \<and> json_loads L t = Inl e \<and> e \<noteq> JSONDecodeError \<and> e \<noteq> ESGServiceError \<longrightarrow>
            analyse_with_openai L E company articles = Inl e
            \<and> analyse_articles L E company articles = Inl e)
       \<and> (\<not> openai_available E
            \<or> analyse_with_openai L E company articles = Inl ESGServiceError \<longrightarrow>
            analyse_articles L E company articles = analyse_with_heuristics L articles)
       \<and> (openai_available E
            \<and> analyse_with_openai L E company articles \<noteq> Inl ESGServiceError \<longrightarrow>
            analyse_articles L E company articles = analyse_with_openai L E company articles)"
proof (intro conjI impI)
  assume a: "openai_available E \<and> scoring_response E = OutputText t
            \<and> json_loads L t = Inl JSONDecodeError"
  then have "execute_openai_prompt E = Inr t"
    by (simp add: execute_openai_prompt_def)
  with a show o: "analyse_with_openai L E company articles = Inl ESGServiceError"
    using analyse_with_openai_parse_failure by blast
  from a o assms
  show "analyse_articles L E company articles = analyse_with_heuristics L articles"
    by (simp add: analyse_articles_def)
next
  assume a: "openai_available E \<and> scoring_response E = OutputText t
            \<and> json_loads L t = Inl e \<and> e \<noteq> JSONDecodeError \<and> e \<noteq> ESGServiceError"
  then have "execute_openai_prompt E = Inr t"
    by (simp add: execute_openai_prompt_def)
  with a show o: "analyse_with_openai L E company articles = Inl e"
    using analyse_with_openai_parse_raises by blast
  from a o assms show "analyse_articles L E company articles = Inl e"
    by (simp add: analyse_articles_def)
next
  assume "\<not> openai_available E \<or> analyse_with_openai L E company articles = Inl ESGServiceError"
  with assms show "analyse_articles L E company articles = analyse_with_heuristics L articles"
    by (auto simp: analyse_articles_def)
next
  assume "openai_available E \<and> analyse_with_openai L E company articles \<noteq> Inl ESGServiceError"
  with assms
  show "analyse_articles L E company articles = analyse_with_openai L E company articles"
    by (cases "analyse_with_openai L E company articles") (auto simp: analyse_articles_def)
qed

theorem analyse_articles_fallback_witness:
  \<open>analyse_with_openai (ex_libs [])
       (ex_env True NoOutputText (OutputText ''Sorry, no JSON'')) ''Acme''
       [ex_article (Some ''Oil spill'') None None]
     = Inl ESGServiceError
   \<and> analyse_articles (ex_libs [])
       (ex_env True NoOutputText (OutputText ''Sorry, no JSON'')) ''Acme''
       [ex_article (Some ''Oil spill'') None None]
     = Inr \<lparr>items = [\<lparr>item_title = JStr ''Oil spill'', item_description = JStr [],
                       date = JNull, display_date = JStr ''N/A'', item_source = JNull,
                       item_url = JNull,
                       scores = \<lparr>environment = 70, social = 0, governance = 0,
                                  overall = 28\<rparr>\<rparr>],
            overall_score = JFloat (Finite 28)\<rparr>
   \<and> analyse_articles (ex_libs_raising ''12345'' ValueError)
       (ex_env True NoOutputText (OutputText ''12345'')) ''Acme''
       [ex_article (Some ''Oil spill'') None None]
     = Inl ValueError
   \<and> analyse_articles (ex_libs [])
       (ex_env False NoOutputText NoOutputText) ''Acme''
       [ex_article (Some ''Oil spill'') None None]
     = analyse_with_heuristics (ex_libs []) [ex_article (Some ''Oil spill'') None None]
   \<and> analyse_articles (ex_libs [(''{"items": []}'', JObj [(''items'', JArr [])])])
       (ex_env True NoOutputText (OutputText ''{"items": []}'')) ''Acme''
       [ex_article (Some ''Oil spill'') None None]
     = Inr \<lparr>items = [], overall_score = JInt 0\<rparr>\<close>
proof -
  let ?L = "ex_libs []" and ?E = "ex_env True NoOutputText (OutputText ''Sorry, no JSON'')"
  let ?as = "[ex_article (Some ''Oil spill'') None None]"
  have n: "?as \<noteq> []" by simp
  note T = analyse_articles_fallback [OF n]
  have p: "openai_available ?E \<and> scoring_response ?E = OutputText ''Sorry, no JSON''
     \<and> json_loads ?L ''Sorry, no JSON'' = Inl JSONDecodeError"
    by (simp add: ex_env_def ex_libs_def)
  from T [THEN conjunct1, THEN mp, OF p]
  have 1: "analyse_with_openai ?L ?E ''Acme'' ?as = Inl ESGServiceError"
    and 2: "analyse_articles ?L ?E ''Acme'' ?as = analyse_with_heuristics ?L ?as"
    by blast+
  have t: "lower (article_text (ex_article (Some ''Oil spill'') None None)) = ''oil spill''"
    by code_simp
  have e: "hit (ex_article (Some ''Oil spill'') None None) ENVIRONMENTAL_KEYWORDS"
    unfolding hit_def t by code_simp
  have s: "\<not> hit (ex_article (Some ''Oil spill'') None None) SOCIAL_KEYWORDS"
    unfolding hit_def t by code_simp
  have g: "\<not> hit (ex_article (Some ''Oil spill'') None None) GOVERNANCE_KEYWORDS"
    unfolding hit_def t by code_simp
  have r: "float_add 0 28 = 28" "float_div 28 1 = 28"
    by code_simp+
  have 3: "analyse_with_heuristics ?L ?as
     = Inr \<lparr>items = [\<lparr>item_title = JStr ''Oil spill'', item_description = JStr [],
                       date = JNull, display_date = JStr ''N/A'', item_source = JNull,
                       item_url = JNull,
                       scores = \<lparr>environment = 70, social = 0, governance = 0,
                                  overall = 28\<rparr>\<rparr>],
            overall_score = JFloat (Finite 28)\<rparr>"
    unfolding analyse_with_heuristics_def map_exn.simps heuristic_item_eq
    using e s g r round2_values
    by (simp add: bind_exn_def axis_def sort_items_by_score_def sorted_reverse_def
        compute_overall_score_def ex_article_def of_text_def format_display_date_def
        ex_libs_def)
  let ?L' = "ex_libs_raising ''12345'' ValueError"
    and ?E' = "ex_env True NoOutputText (OutputText ''12345'')"
  have p': "openai_available ?E' \<and> scoring_response ?E' = OutputText ''12345''
     \<and> json_loads ?L' ''12345'' = Inl ValueError \<and> ValueError \<noteq> JSONDecodeError
     \<and> ValueError \<noteq> ESGServiceError"
    by (simp add: ex_env_def ex_libs_raising_def)
  from T [THEN conjunct2, THEN conjunct1, THEN mp, OF p']
  have 4: "analyse_articles ?L' ?E' ''Acme'' ?as = Inl ValueError"
    by blast
  have "\<not> openai_available (ex_env False NoOutputText NoOutputText)"
    by (simp add: ex_env_def)
  from T [THEN conjunct2, THEN conjunct2, THEN conjunct1, THEN mp, OF disjI1, OF this]
  have 5: "analyse_articles ?L (ex_env False NoOutputText NoOutputText) ''Acme'' ?as
     = analyse_with_heuristics ?L ?as" .
  let ?L'' = \<open>ex_libs [(''{"items": []}'', JObj [(''items'', JArr [])])]\<close>
    and ?E'' = \<open>ex_env True NoOutputText (OutputText ''{"items": []}'')\<close>
  have o: "analyse_with_openai ?L'' ?E'' ''Acme'' ?as = Inr \<lparr>items = [], overall_score = JInt 0\<rparr>"
    by (simp add: analyse_with_openai_def execute_openai_prompt_def ex_env_def ex_libs_def
        bind_exn_def json_get_def py_iter_def dict_get_default_def sort_items_by_score_def
        sorted_reverse_def compute_overall_score_def)
  then have "openai_available ?E''
     \<and> analyse_with_openai ?L'' ?E'' ''Acme'' ?as \<noteq> Inl ESGServiceError"
    by (simp add: ex_env_def)
  from T [THEN conjunct2, THEN conjunct2, THEN conjunct2, THEN mp, OF this] o
  have 6: "analyse_articles ?L'' ?E'' ''Acme'' ?as = Inr \<lparr>items = [], overall_score = JInt 0\<rparr>"
    by simp
  from 1 2 3 4 5 6 show ?thesis by simp
qed


section \<open>Properties of \<^verbatim>\<open>make_cache_key\<close>\<close>

text \<open>A normalized name is the words of the name, joined by single spaces.\<close>

lemma split_ws_dropWhile: "split_ws (dropWhile isspace s) = split_ws s"
  by (induction s) auto

lemma split_ws_all_space: "\<forall>c\<in>set w. isspace c \<Longrightarrow> split_ws w = []"
  by (induction w) auto

lemma split_ws_append_space:
  "\<forall>c\<in>set w. isspace c \<Longrightarrow> split_ws (u @ w) = split_ws u"
proof (induction u rule: split_ws.induct)
  case 1
  then show ?case by (simp add: split_ws_all_space)
next
  case (2 c cs)
  show ?case
  proof (cases "isspace c")
    case True
    with 2 show ?thesis by simp
  next
    case False
    have w: "takeWhile (\<lambda>x. \<not> isspace x) w = []" "dropWhile (\<lambda>x. \<not> isspace x) w = w"
      using "2.prems" by (cases w; simp)+
    show ?thesis
    proof (cases "\<forall>x\<in>set cs. \<not> isspace x")
      case True
      then have a: "dropWhile (\<lambda>x. \<not> isspace x) cs = []"
        and b: "takeWhile (\<lambda>x. \<not> isspace x) cs = cs" by simp_all
      have "split_ws (c # cs @ w) = (c # cs) # split_ws w"
        using True False w by (simp add: takeWhile_append dropWhile_append)
      moreover have "split_ws (c # cs) = [c # cs]"
        using False a b by (simp del: dropWhile_eq_Nil_conv takeWhile_eq_all_conv)
      ultimately show ?thesis
        using "2.prems" by (simp add: split_ws_all_space)
    next
      case some: False
      then have t: "takeWhile (\<lambda>x. \<not> isspace x) (cs @ w) = takeWhile (\<lambda>x. \<not> isspace x) cs"
        and d: "dropWhile (\<lambda>x. \<not> isspace x) (cs @ w) = dropWhile (\<lambda>x. \<not> isspace x) cs @ w"
        by (auto simp: takeWhile_append dropWhile_append)
      from "2.IH"(2) [OF False "2.prems"] False t d show ?thesis by simp
    qed
  qed
qed

lemma split_ws_strip: "split_ws (strip s) = split_ws s"
proof -
  let ?d = "dropWhile isspace s"
  have "?d = strip s @ rev (takeWhile isspace (rev ?d))"
    unfolding strip_def by (metis rev_append rev_rev_ident takeWhile_dropWhile_id)
  moreover have "\<forall>c\<in>set (rev (takeWhile isspace (rev ?d))). isspace c"
    by (auto dest: set_takeWhileD)
  ultimately have "split_ws ?d = split_ws (strip s)"
    using split_ws_append_space by metis
  then show ?thesis by (simp add: split_ws_dropWhile)
qed

lemma sub_spaces_word:
  "\<forall>c\<in>set w. \<not> isspace c \<Longrightarrow> sub_spaces (w @ r) = w @ sub_spaces r"
  by (induction w) auto

lemma join_space_Cons: "qs \<noteq> [] \<Longrightarrow> join_space (p # qs) = p @ CHR '' '' # join_space qs"
  by (cases qs) auto

lemma split_ws_word:
  assumes "w \<noteq> []" and "\<forall>x\<in>set w. \<not> isspace x" and "r = [] \<or> isspace (hd r)"
  shows "split_ws (w @ r) = w # split_ws r"
proof -
  from assms(1) obtain c cs where w: "w = c # cs" by (cases w) auto
  from assms(3) have r: "takeWhile (\<lambda>x. \<not> isspace x) r = []"
    "dropWhile (\<lambda>x. \<not> isspace x) r = r"
    by (cases r; simp)+
  from assms(2) w have "takeWhile (\<lambda>x. \<not> isspace x) (c # cs @ r) = c # cs"
    and "dropWhile (\<lambda>x. \<not> isspace x) (cs @ r) = r"
    using r by (simp_all add: takeWhile_append dropWhile_append)
  with assms(2) w show ?thesis by simp
qed

lemma word_decomposition:
  assumes "t \<noteq> []" and "\<not> isspace (hd t)"
  obtains w r where "t = w @ r" and "w \<noteq> []" and "\<forall>x\<in>set w. \<not> isspace x"
    and "r = [] \<or> isspace (hd r)"
proof
  let ?w = "takeWhile (\<lambda>x. \<not> isspace x) t" and ?r = "dropWhile (\<lambda>x. \<not> isspace x) t"
  show "t = ?w @ ?r" by simp
  show "?w \<noteq> []" using assms by (cases t) auto
  show "\<forall>x\<in>set ?w. \<not> isspace x" by (auto dest: set_takeWhileD)
  show "?r = [] \<or> isspace (hd ?r)" using hd_dropWhile [of "\<lambda>x. \<not> isspace x" t] by blast
qed

lemma sub_spaces_trimmed: "trimmed t \<Longrightarrow> sub_spaces t = join_space (split_ws t)"
proof (induction "length t" arbitrary: t rule: less_induct)
  case less
  show ?case
  proof (cases "t = []")
    case True
    then show ?thesis by simp
  next
    case False
    with less.prems have h: "\<not> isspace (hd t)" and l: "\<not> isspace (last t)"
      by (auto simp: trimmed_def)
    from False h obtain w r where t: "t = w @ r" and wne: "w \<noteq> []"
      and w: "\<forall>x\<in>set w. \<not> isspace x" and r: "r = [] \<or> isspace (hd r)"
      by (rule word_decomposition)
    have s: "split_ws t = w # split_ws r"
      unfolding t using wne w r by (rule split_ws_word)
    have u: "sub_spaces t = w @ sub_spaces r"
      unfolding t using w by (rule sub_spaces_word)
    show ?thesis
    proof (cases "r = []")
      case True
      with s u show ?thesis by simp
    next
      case rne: False
      with r obtain x r' where rx: "r = x # r'" and x: "isspace x"
        by (cases r) auto
      define t' where "t' = dropWhile isspace r'"
      have lr: "last r = last t" using rne t by simp
      have r'ne: "r' \<noteq> []"
        using l lr rx x by auto
      with l lr rx have "\<not> isspace (last r')" by simp
      moreover from r'ne have "last r' \<in> set r'" by (rule last_in_set)
      ultimately have "\<exists>y\<in>set r'. \<not> isspace y" by blast
      then have tne: "t' \<noteq> []" by (simp add: t'_def)
      have ht: "\<not> isspace (hd t')" using tne unfolding t'_def by (rule dropWhile_hd)
      have "r' = takeWhile isspace r' @ t'" by (simp add: t'_def)
      then have "last r' = last t'" using tne by (metis last_appendR)
      moreover have "last r = last r'" using rx tne by (auto simp: t'_def)
      ultimately have lt: "\<not> isspace (last t')" using l lr by simp
      from tne ht lt have tr: "trimmed t'" by (simp add: trimmed_def)
      have "length t' \<le> length r'" unfolding t'_def by (rule length_dropWhile_le)
      with t rx wne have "length t' < length t" by simp
      from less.hyps [OF this tr] have ih: "sub_spaces t' = join_space (split_ws t')" .
      have sr: "sub_spaces r = CHR '' '' # sub_spaces t'"
        using rx x by (simp add: t'_def)
      have ss: "split_ws r = split_ws t'"
        using rx x by (simp add: t'_def split_ws_dropWhile)
      have ne: "split_ws t' \<noteq> []"
        using tne ht by (cases t') auto
      show ?thesis
        unfolding u s sr ss ih using ne by (simp add: join_space_Cons)
    qed
  qed
qed

lemma normalize_company_name_words:
  "normalize_company_name s = join_space (split_ws s)"
  unfolding normalize_company_name_def
  by (simp add: sub_spaces_trimmed trimmed_strip split_ws_strip)

lemma lower_char_space: "lower_char CHR '' '' = CHR '' ''"
  by (simp add: lower_char_def)

lemma lower_join_space: "lower (join_space ws) = join_space (map lower ws)"
  by (induction ws rule: join_space.induct) (simp_all add: lower_def lower_char_space)

lemma isspace_lower_char: "isspace (lower_char c) = isspace c"
proof -
  have n: "of_char c < (256::nat)" by simp
  show ?thesis
    using n unfolding isspace_def lower_char_def Let_def
    by (auto simp: of_char_of [where 'a = nat])
qed

lemma split_ws_lower: "split_ws (lower s) = map lower (split_ws s)"
proof (induction s rule: split_ws.induct)
  case 1
  show ?case by (simp add: lower_def)
next
  case (2 c cs)
  have c: "(\<lambda>x. \<not> isspace x) \<circ> lower_char = (\<lambda>x. \<not> isspace x)"
    by (auto simp: isspace_lower_char)
  show ?case
  proof (cases "isspace c")
    case True
    with 2 show ?thesis by (simp add: lower_def isspace_lower_char)
  next
    case False
    with "2.IH"(2) show ?thesis
      by (simp add: lower_def isspace_lower_char takeWhile_map dropWhile_map c)
  qed
qed

lemma length_hex32: "length (hex32 w) = 8"
  by (simp add: hex32_def)

lemma length_sha1_hexdigest: "length (sha1_hexdigest m) = 40"
  unfolding sha1_hexdigest_def by (simp add: length_hex32 split: prod.splits)

text \<open>
  Claim C7. \<^verbatim>\<open>make_cache_key\<close> is a function of the name (the same name gives the same
  key), and the key is the prefix \<^verbatim>\<open>esg:company:\<close> followed by the SHA-1 hex digest, of
  40 characters, of the lowercased normalized name. Two names with the same words up to
  case have the same key, whatever whitespace separates or surrounds the words; so have
  two names that differ only in case; and \<^verbatim>\<open>Adani Power\<close> and \<^verbatim>\<open> adani  power\<close> have the
  same key.
\<close>

theorem make_cache_key_invariant:
  "make_cache_key name
     = ''esg:company:'' @ sha1_hexdigest (encode_utf8 (lower (normalize_company_name name)))
   \<and> length (sha1_hexdigest (encode_utf8 (lower (normalize_company_name name)))) = 40
   \<and> (map lower (split_ws s) = map lower (split_ws t) \<longrightarrow> make_cache_key s = make_cache_key t)
   \<and> (lower s = lower t \<longrightarrow> make_cache_key s = make_cache_key t)
   \<and> make_cache_key ''Adani Power'' = make_cache_key '' adani  power''"
proof -
  have k: "make_cache_key x
     = ''esg:company:'' @ sha1_hexdigest (encode_utf8 (join_space (map lower (split_ws x))))" for x
    by (simp add: make_cache_key_def normalize_company_name_words lower_join_space)
  have 1: "make_cache_key name
     = ''esg:company:'' @ sha1_hexdigest (encode_utf8 (lower (normalize_company_name name)))"
    by (simp add: make_cache_key_def)
  have 2: "length (sha1_hexdigest (encode_utf8 (lower (normalize_company_name name)))) = 40"
    by (rule length_sha1_hexdigest)
  have 3: "map lower (split_ws s) = map lower (split_ws t) \<longrightarrow> make_cache_key s = make_cache_key t"
    by (simp add: k)
  have 4: "lower s = lower t \<longrightarrow> make_cache_key s = make_cache_key t"
  proof
    assume "lower s = lower t"
    then have "split_ws (lower s) = split_ws (lower t)" by simp
    then show "make_cache_key s = make_cache_key t"
      by (simp add: k split_ws_lower)
  qed
  have "map lower (split_ws ''Adani Power'') = map lower (split_ws '' adani  power'')"
    by code_simp
  then have 5: "make_cache_key ''Adani Power'' = make_cache_key '' adani  power''"
    by (simp only: k)
  from 1 2 3 4 5 show ?thesis by (intro conjI)
qed

theorem make_cache_key_invariant_witness:
  "make_cache_key ''ADANI   Power '' = make_cache_key ''Adani Power''
   \<and> make_cache_key ''ADANI POWER'' = make_cache_key ''adani power''"
proof -
  have a: "map lower (split_ws ''ADANI   Power '') = map lower (split_ws ''Adani Power'')"
    by code_simp
  have b: "lower ''ADANI POWER'' = lower ''adani power''"
    by code_simp
  from make_cache_key_invariant [of _ "''ADANI   Power ''" "''Adani Power''"] a
  have 1: "make_cache_key ''ADANI   Power '' = make_cache_key ''Adani Power''" by blast
  from make_cache_key_invariant [of _ "''ADANI POWER''" "''adani power''"] b
  have 2: "make_cache_key ''ADANI POWER'' = make_cache_key ''adani power''" by blast
  from 1 2 show ?thesis ..
qed

end
